theory Spec2Isabelle
  imports Complex_Main "HOL-Library.Log_Nat" "HOL-Library.Sublist"
begin

section \<open>Python floats\<close>

text \<open>
  Prices in \<^verbatim>\<open>app.py\<close> are Python floats (IEEE 754 binary64) and every price is passed
  through \<^verbatim>\<open>round(x, 2)\<close>.  A float is modelled by the rational it denotes, or by one
  of the three special values.  The two zeros are identified: the program only compares
  floats and never divides by one, so the sign of a zero cannot be observed.
\<close>

datatype pyfloat = Fin rat | PInf | NInf | NaN

datatype error = ValueError | OverflowError | BadRequestKeyError | NotFound

definition pow2 :: "int \<Rightarrow> rat" where
  "pow2 e = (if 0 \<le> e then 2 ^ nat e else 1 / 2 ^ nat (- e))"

text \<open>Rounding to the nearest integer, ties to the even one.\<close>

definition round_half_even :: "rat \<Rightarrow> int" where
  "round_half_even x =
     (let f = \<lfloor>x\<rfloor>; d = x - of_int f
      in if d < 1 / 2 then f
         else if 1 / 2 < d then f + 1
         else if even f then f else f + 1)"

text \<open>
  The binary exponent \<open>\<lfloor>log\<^sub>2 x\<rfloor>\<close> of a positive rational, from the bit length of its
  integer part when \<open>1 \<le> x\<close> and of the integer part of its inverse otherwise.
\<close>

definition ilog2 :: "rat \<Rightarrow> int" where
  "ilog2 x = (if 1 \<le> x then bitlen \<lfloor>x\<rfloor> - 1 else - bitlen (\<lceil>1 / x\<rceil> - 1))"

text \<open>
  The float nearest to a rational (ties to even).  A binary64 number is \<open>m * 2^e\<close> with
  \<open>m < 2^53\<close> and \<open>-1074 \<le> e \<le> 971\<close>; \<open>e\<close> is \<open>-1074\<close> for the subnormal numbers.
  Rounding the significand may give \<open>m = 2^53\<close>, which is the first number of the next
  binade; a result beyond the largest finite float \<open>(2^53 - 1) * 2^971\<close> is an infinity.
\<close>

definition to_float :: "rat \<Rightarrow> pyfloat" where
  "to_float x =
     (if x = 0 then Fin 0
      else let a = \<bar>x\<bar>;
               e = max (ilog2 a - 52) (- 1074);
               m = round_half_even (a / pow2 e)
           in if 971 < e \<or> (e = 971 \<and> m = 2 ^ 53)
              then (if 0 < x then PInf else NInf)
              else Fin (sgn x * of_int m * pow2 e))"

text \<open>\<^verbatim>\<open>x * y\<close> on floats.\<close>

fun fmul :: "pyfloat \<Rightarrow> pyfloat \<Rightarrow> pyfloat" where
  "fmul (Fin a) (Fin b) = to_float (a * b)"
| "fmul NaN _ = NaN"
| "fmul _ NaN = NaN"
| "fmul (Fin a) PInf = (if a = 0 then NaN else if 0 < a then PInf else NInf)"
| "fmul (Fin a) NInf = (if a = 0 then NaN else if 0 < a then NInf else PInf)"
| "fmul PInf (Fin b) = (if b = 0 then NaN else if 0 < b then PInf else NInf)"
| "fmul NInf (Fin b) = (if b = 0 then NaN else if 0 < b then NInf else PInf)"
| "fmul PInf PInf = PInf"
| "fmul PInf NInf = NInf"
| "fmul NInf PInf = NInf"
| "fmul NInf NInf = PInf"

text \<open>\<^verbatim>\<open>x + y\<close> on floats.\<close>

fun fadd :: "pyfloat \<Rightarrow> pyfloat \<Rightarrow> pyfloat" where
  "fadd (Fin a) (Fin b) = to_float (a + b)"
| "fadd NaN _ = NaN"
| "fadd _ NaN = NaN"
| "fadd PInf NInf = NaN"
| "fadd NInf PInf = NaN"
| "fadd PInf _ = PInf"
| "fadd _ PInf = PInf"
| "fadd NInf _ = NInf"
| "fadd _ NInf = NInf"

text \<open>
  \<^verbatim>\<open>round(x, 2)\<close>: the exact value of \<open>x\<close> is rounded to two decimal places, ties to
  even, and the result is the float nearest to that decimal; infinities and NaN round
  to themselves.
\<close>

fun round2 :: "pyfloat \<Rightarrow> pyfloat" where
  "round2 (Fin x) = to_float (of_int (round_half_even (x * 100)) / 100)"
| "round2 PInf = PInf"
| "round2 NInf = NInf"
| "round2 NaN = NaN"

text \<open>\<^verbatim>\<open>x < y\<close> and \<^verbatim>\<open>x > y\<close> on floats: false as soon as one side is NaN.\<close>

fun flt :: "pyfloat \<Rightarrow> pyfloat \<Rightarrow> bool" where
  "flt NaN _ = False"
| "flt _ NaN = False"
| "flt (Fin a) (Fin b) = (a < b)"
| "flt _ NInf = False"
| "flt NInf _ = True"
| "flt PInf _ = False"
| "flt (Fin a) PInf = True"

definition fgt :: "pyfloat \<Rightarrow> pyfloat \<Rightarrow> bool" where
  "fgt x y = flt y x"

text \<open>\<^verbatim>\<open>int(x)\<close>: truncation towards zero; raises on an infinity or NaN.\<close>

fun py_int :: "pyfloat \<Rightarrow> error + int" where
  "py_int (Fin x) = Inr (if 0 \<le> x then \<lfloor>x\<rfloor> else - \<lfloor>- x\<rfloor>)"
| "py_int PInf = Inl OverflowError"
| "py_int NInf = Inl OverflowError"
| "py_int NaN = Inl ValueError"

text \<open>The conversion of an int operand in \<^verbatim>\<open>float * int\<close>: raises when the int is
  too large for a float.\<close>

definition float_of_int :: "int \<Rightarrow> error + pyfloat" where
  "float_of_int i =
     (case to_float (of_int i) of Fin y \<Rightarrow> Inr (Fin y) | _ \<Rightarrow> Inl OverflowError)"

section \<open>Pricing\<close>

definition TAX_RATE :: pyfloat where
  "TAX_RATE = to_float (10 / 100)"

definition WINTER_SURGE :: pyfloat where
  "WINTER_SURGE = to_float (40 / 100)"

definition SUMMER_SURGE :: pyfloat where
  "SUMMER_SURGE = to_float (30 / 100)"

definition SPRING_SURGE :: pyfloat where
  "SPRING_SURGE = to_float (20 / 100)"

text \<open>The dictionary returned by \<^verbatim>\<open>calculate_price_breakdown\<close>.\<close>

record pricing =
  base_price :: pyfloat
  seasonal_percent :: int
  price_before_tax :: pyfloat
  tax_amount :: pyfloat
  total_price :: pyfloat

text \<open>
  The \<^verbatim>\<open>if\<close>/\<^verbatim>\<open>elif\<close> chain of \<^verbatim>\<open>calculate_price_breakdown\<close> that chooses
  \<^verbatim>\<open>seasonal_factor\<close>.  The month is \<^verbatim>\<open>datetime.now().month\<close>; the model takes it
  as an argument and reads the clock once per request.
\<close>

definition seasonal_factor_of :: "nat \<Rightarrow> pyfloat" where
  "seasonal_factor_of month =
     (if month \<in> set [12, 1] then WINTER_SURGE
      else if month \<in> set [6, 7, 8] then SUMMER_SURGE
      else if month \<in> set [3, 4, 5] then SPRING_SURGE
      else Fin 0)"

definition calculate_price_breakdown :: "nat \<Rightarrow> pyfloat \<Rightarrow> error + pricing" where
  "calculate_price_breakdown month b =
     (let seasonal_factor = seasonal_factor_of month;
          seasonal_price = round2 (fmul b (fadd (Fin 1) seasonal_factor));
          tax = round2 (fmul seasonal_price TAX_RATE);
          total = round2 (fadd seasonal_price tax)
      in case py_int (fmul seasonal_factor (Fin 100)) of
           Inl e \<Rightarrow> Inl e
         | Inr percent \<Rightarrow>
             Inr \<lparr>base_price = b, seasonal_percent = percent,
                  price_before_tax = seasonal_price, tax_amount = tax,
                  total_price = total\<rparr>)"

definition calculate_dynamic_price :: "nat \<Rightarrow> pyfloat \<Rightarrow> error + pyfloat" where
  "calculate_dynamic_price month b =
     (case calculate_price_breakdown month b of
        Inl e \<Rightarrow> Inl e
      | Inr pricing \<Rightarrow> Inr (price_before_tax pricing))"

section \<open>Stored data\<close>

text \<open>
  The SQLAlchemy models, with the columns the modelled routes read or write.  The
  \<^verbatim>\<open>created_at\<close> timestamps and the name, email and password hash of a user are left
  out.  A table is the list of its rows in insertion order.
\<close>

record User =
  User_id :: nat
  User_role :: string

record Room =
  Room_id :: nat
  Room_room_type :: string
  Room_base_price :: pyfloat
  Room_is_available :: bool
  Room_description :: string

record Reservation =
  Res_id :: nat
  Res_user_id :: nat
  Res_room_id :: nat
  Res_check_in :: string
  Res_check_out :: string
  Res_daily_price :: pyfloat
  Res_days :: int
  Res_base_price :: pyfloat
  Res_tax_amount :: pyfloat
  Res_total_price :: pyfloat
  Res_status :: string
  Res_paid :: bool

record Payment =
  Pay_id :: nat
  Pay_reservation_id :: nat
  Pay_amount :: pyfloat
  Pay_method :: string
  Pay_status :: string

record db =
  rooms :: "Room list"
  reservations :: "Reservation list"
  payments :: "Payment list"

text \<open>The integer primary key given to a new row: one more than the largest in use.\<close>

definition next_id :: "nat list \<Rightarrow> nat" where
  "next_id ids = Suc (fold max ids 0)"

text \<open>\<^verbatim>\<open>Room.query.get_or_404(room_id)\<close> and \<^verbatim>\<open>Reservation.query.get_or_404(id)\<close>.\<close>

definition get_room :: "db \<Rightarrow> nat \<Rightarrow> Room option" where
  "get_room d room_id = find (\<lambda>r. Room_id r = room_id) (rooms d)"

definition get_reservation :: "db \<Rightarrow> nat \<Rightarrow> Reservation option" where
  "get_reservation d reservation_id = find (\<lambda>r. Res_id r = reservation_id) (reservations d)"

section \<open>Requests\<close>

datatype http_method = GET | POST

type_synonym form = "string \<rightharpoonup> string"

text \<open>
  What a request takes from outside the program: the month of \<^verbatim>\<open>datetime.now()\<close>, and
  the two library parsers, \<^verbatim>\<open>float(s)\<close> and \<^verbatim>\<open>datetime.strptime(s, "%Y-%m-%d")\<close>.
  A parser returns \<open>None\<close> where the library raises \<^verbatim>\<open>ValueError\<close>; a parsed date is
  its day number, so that \<^verbatim>\<open>(check_out_date - check_in_date).days\<close> is a difference of
  integers.
\<close>

record env =
  now_month :: nat
  float_of_str :: "string \<Rightarrow> pyfloat option"
  strptime :: "string \<Rightarrow> int option"

text \<open>
  The answer of a route: a redirect with its flashed message, a rendered template with
  the data it is given, or an abort (404 from \<^verbatim>\<open>get_or_404\<close>, 400 from a missing form
  field, 500 from an uncaught exception).
\<close>

datatype response =
    Redirect string string
  | Redirect_invoice string nat
  | Render_search "(Room \<times> pyfloat) list"
  | Render_book Room pyfloat
  | Render_pay Reservation
  | Render_edit_room Room
  | Render_admin "Room list" "Reservation list"
  | Abort error

text \<open>Python truth of an optional form field: present and not empty.\<close>

definition truthy :: "string option \<Rightarrow> bool" where
  "truthy v = (case v of None \<Rightarrow> False | Some s \<Rightarrow> s \<noteq> [])"

definition is_staff :: "User option \<Rightarrow> bool" where
  "is_staff user = (case user of None \<Rightarrow> False | Some u \<Rightarrow> User_role u = ''staff'')"

section \<open>Search\<close>

text \<open>The test of one room in the POST loop of \<^verbatim>\<open>search\<close>: \<open>True\<close> where the loop
  reaches \<^verbatim>\<open>continue\<close>.\<close>

definition skipped :: "env \<Rightarrow> string option \<Rightarrow> string option \<Rightarrow> Room \<Rightarrow> pyfloat \<Rightarrow> bool" where
  "skipped e room_type max_price r price_today =
     (if truthy room_type \<and> room_type \<noteq> Some ''Any'' \<and> Some (Room_room_type r) \<noteq> room_type
      then True
      else (case max_price of
              None \<Rightarrow> False
            | Some s \<Rightarrow>
                if s = [] then False
                else (case float_of_str e s of
                        None \<Rightarrow> False
                      | Some limit \<Rightarrow> fgt price_today limit)))"

fun search_post_loop ::
  "env \<Rightarrow> string option \<Rightarrow> string option \<Rightarrow> Room list \<Rightarrow> (Room \<times> pyfloat) list
     \<Rightarrow> error + (Room \<times> pyfloat) list" where
  "search_post_loop e room_type max_price [] filtered_rooms = Inr filtered_rooms"
| "search_post_loop e room_type max_price (r # rs) filtered_rooms =
     (case calculate_dynamic_price (now_month e) (Room_base_price r) of
        Inl err \<Rightarrow> Inl err
      | Inr price_today \<Rightarrow>
          if skipped e room_type max_price r price_today
          then search_post_loop e room_type max_price rs filtered_rooms
          else search_post_loop e room_type max_price rs (filtered_rooms @ [(r, price_today)]))"

fun search_get_loop ::
  "env \<Rightarrow> Room list \<Rightarrow> (Room \<times> pyfloat) list \<Rightarrow> error + (Room \<times> pyfloat) list" where
  "search_get_loop e [] filtered_rooms = Inr filtered_rooms"
| "search_get_loop e (r # rs) filtered_rooms =
     (case calculate_dynamic_price (now_month e) (Room_base_price r) of
        Inl err \<Rightarrow> Inl err
      | Inr price_today \<Rightarrow> search_get_loop e rs (filtered_rooms @ [(r, price_today)]))"

definition search :: "env \<Rightarrow> User option \<Rightarrow> http_method \<Rightarrow> form \<Rightarrow> db \<Rightarrow> response" where
  "search e user meth f d =
     (if is_staff user then Redirect ''Admins cannot search rooms'' ''admin_dashboard''
      else let rs = filter Room_is_available (rooms d)
           in case (if meth = POST
                    then search_post_loop e (f ''room_type'') (f ''max_price'') rs []
                    else search_get_loop e rs []) of
                Inl err \<Rightarrow> Abort err
              | Inr filtered_rooms \<Rightarrow> Render_search filtered_rooms)"

section \<open>Booking\<close>

text \<open>The body of \<^verbatim>\<open>book\<close> under \<^verbatim>\<open>if request.method == "POST"\<close>.\<close>

definition book_post :: "env \<Rightarrow> User \<Rightarrow> form \<Rightarrow> Room \<Rightarrow> db \<Rightarrow> response \<times> db" where
  "book_post e user f room d =
     (case f ''check_in'' of None \<Rightarrow> (Abort BadRequestKeyError, d) | Some check_in \<Rightarrow>
     (case f ''check_out'' of None \<Rightarrow> (Abort BadRequestKeyError, d) | Some check_out \<Rightarrow>
     (case f ''payment_method'' of None \<Rightarrow> (Abort BadRequestKeyError, d) | Some payment_method \<Rightarrow>
     (case strptime e check_in of None \<Rightarrow> (Abort ValueError, d) | Some check_in_date \<Rightarrow>
     (case strptime e check_out of None \<Rightarrow> (Abort ValueError, d) | Some check_out_date \<Rightarrow>
     (let days0 = check_out_date - check_in_date;
          days = (if days0 \<le> 0 then 1 else days0)
      in
     (case calculate_price_breakdown (now_month e) (Room_base_price room) of
        Inl err \<Rightarrow> (Abort err, d) | Inr pricing \<Rightarrow>
     (let daily_price = price_before_tax pricing
      in
     (case float_of_int days of Inl err \<Rightarrow> (Abort err, d) | Inr days_f \<Rightarrow>
     (let subtotal = round2 (fmul daily_price days_f);
          tax = round2 (fmul subtotal TAX_RATE);
          total = round2 (fadd subtotal tax);
          res = \<lparr>Res_id = next_id (map Res_id (reservations d)),
                 Res_user_id = User_id user,
                 Res_room_id = Room_id room,
                 Res_check_in = check_in,
                 Res_check_out = check_out,
                 Res_daily_price = daily_price,
                 Res_days = days,
                 Res_base_price = subtotal,
                 Res_tax_amount = tax,
                 Res_total_price = total,
                 Res_status = ''confirmed'',
                 Res_paid = (payment_method \<noteq> [])\<rparr>
      in (Redirect_invoice ''Room booked successfully'' (Res_id res),
          d\<lparr>rooms := map (\<lambda>r. if Room_id r = Room_id room
                                then r\<lparr>Room_is_available := False\<rparr> else r) (rooms d),
            reservations := reservations d @ [res]\<rparr>)))))))))))"

definition book :: "env \<Rightarrow> User option \<Rightarrow> http_method \<Rightarrow> form \<Rightarrow> nat \<Rightarrow> db \<Rightarrow> response \<times> db" where
  "book e user meth f room_id d =
     (case user of
        None \<Rightarrow> (Redirect ''Login required to book'' ''login'', d)
      | Some u \<Rightarrow>
          if User_role u = ''staff''
          then (Redirect ''Admins cannot book rooms'' ''admin_dashboard'', d)
          else (case get_room d room_id of
                  None \<Rightarrow> (Abort NotFound, d)
                | Some room \<Rightarrow>
                    if \<not> Room_is_available room
                    then (Redirect ''Room is no longer available'' ''search'', d)
                    else (case calculate_dynamic_price (now_month e) (Room_base_price room) of
                            Inl err \<Rightarrow> (Abort err, d)
                          | Inr price \<Rightarrow>
                              if meth = POST then book_post e u f room d
                              else (Render_book room price, d))))"

section \<open>Payment\<close>

text \<open>\<^verbatim>\<open>pay_page\<close> reads the logged-in user only to hand it to the template.\<close>

definition pay_page :: "env \<Rightarrow> http_method \<Rightarrow> form \<Rightarrow> nat \<Rightarrow> db \<Rightarrow> response \<times> db" where
  "pay_page e meth f reservation_id d =
     (case get_reservation d reservation_id of
        None \<Rightarrow> (Abort NotFound, d)
      | Some resv \<Rightarrow>
          if meth = POST
          then (case f ''method'' of None \<Rightarrow> (Abort BadRequestKeyError, d) | Some method \<Rightarrow>
               (case f ''amount'' of None \<Rightarrow> (Abort BadRequestKeyError, d) | Some amount_str \<Rightarrow>
               (case float_of_str e amount_str of None \<Rightarrow> (Abort ValueError, d) | Some amount \<Rightarrow>
               (let p = \<lparr>Pay_id = next_id (map Pay_id (payments d)),
                         Pay_reservation_id = Res_id resv,
                         Pay_amount = amount,
                         Pay_method = method,
                         Pay_status = ''paid''\<rparr>
                in (Redirect_invoice ''Payment successful'' (Res_id resv),
                    d\<lparr>reservations := map (\<lambda>r. if Res_id r = Res_id resv
                                                   then r\<lparr>Res_paid := True\<rparr> else r)
                                             (reservations d),
                      payments := payments d @ [p]\<rparr>)))))
          else (Render_pay resv, d))"

section \<open>Room administration\<close>

text \<open>The query of \<^verbatim>\<open>delete_room\<close>:
  \<^verbatim>\<open>Reservation.query.filter_by(room_id=room.id, status="confirmed").first()\<close>.\<close>

definition active_reservation :: "db \<Rightarrow> Room \<Rightarrow> Reservation option" where
  "active_reservation d room =
     find (\<lambda>r. Res_room_id r = Room_id room \<and> Res_status r = ''confirmed'') (reservations d)"

text \<open>The route of \<^verbatim>\<open>delete_room\<close> accepts POST only.  In \<^verbatim>\<open>edit_room\<close> the assignments
  to the room reach the database at the commit, after \<^verbatim>\<open>float\<close> has parsed the price.
  The dashboard lists the reservations newest first.\<close>

definition delete_room :: "User option \<Rightarrow> nat \<Rightarrow> db \<Rightarrow> response \<times> db" where
  "delete_room user room_id d =
     (if \<not> is_staff user then (Redirect ''Admin access required'' ''login'', d)
      else (case get_room d room_id of
              None \<Rightarrow> (Abort NotFound, d)
            | Some room \<Rightarrow>
                (case active_reservation d room of
                   Some r \<Rightarrow>
                     (Redirect ''Cannot delete a room with active reservations'' ''admin_dashboard'', d)
                 | None \<Rightarrow>
                     (Redirect ''Room deleted successfully'' ''admin_dashboard'',
                      d\<lparr>rooms := filter (\<lambda>r. Room_id r \<noteq> Room_id room) (rooms d)\<rparr>))))"

definition edit_room :: "env \<Rightarrow> User option \<Rightarrow> http_method \<Rightarrow> form \<Rightarrow> nat \<Rightarrow> db \<Rightarrow> response \<times> db" where
  "edit_room e user meth f room_id d =
     (if \<not> is_staff user then (Redirect ''Admin access required'' ''login'', d)
      else (case get_room d room_id of
              None \<Rightarrow> (Abort NotFound, d)
            | Some room \<Rightarrow>
                if meth = POST
                then (case f ''room_type'' of None \<Rightarrow> (Abort BadRequestKeyError, d) | Some room_type \<Rightarrow>
                     (case f ''base_price'' of None \<Rightarrow> (Abort BadRequestKeyError, d) | Some price_str \<Rightarrow>
                     (case float_of_str e price_str of None \<Rightarrow> (Abort ValueError, d) | Some price \<Rightarrow>
                     (Redirect ''Room updated successfully'' ''admin_dashboard'',
                      d\<lparr>rooms := map (\<lambda>r. if Room_id r = Room_id room
                                            then r\<lparr>Room_room_type := room_type,
                                                   Room_base_price := price,
                                                   Room_description :=
                                                     (case f ''description'' of None \<Rightarrow> [] | Some s \<Rightarrow> s),
                                                   Room_is_available := (f ''is_available'' \<noteq> None)\<rparr>
                                            else r) (rooms d)\<rparr>))))
                else (Render_edit_room room, d)))"

definition admin_dashboard :: "env \<Rightarrow> User option \<Rightarrow> http_method \<Rightarrow> form \<Rightarrow> db \<Rightarrow> response \<times> db" where
  "admin_dashboard e user meth f d =
     (if \<not> is_staff user then (Redirect ''Admin access required'' ''login'', d)
      else if meth = POST
      then (case f ''room_type'' of None \<Rightarrow> (Abort BadRequestKeyError, d) | Some room_type \<Rightarrow>
           (case f ''base_price'' of None \<Rightarrow> (Abort BadRequestKeyError, d) | Some price_str \<Rightarrow>
           (case float_of_str e price_str of None \<Rightarrow> (Abort ValueError, d) | Some price \<Rightarrow>
           (let r = \<lparr>Room_id = next_id (map Room_id (rooms d)),
                     Room_room_type = room_type,
                     Room_base_price = price,
                     Room_is_available = True,
                     Room_description = (case f ''description'' of None \<Rightarrow> [] | Some s \<Rightarrow> s)\<rparr>
            in (Redirect ''Room added'' ''admin_dashboard'', d\<lparr>rooms := rooms d @ [r]\<rparr>)))))
      else (Render_admin (rooms d) (rev (reservations d)), d))"

section \<open>The requests that reach the database\<close>

datatype request =
    Search "User option" http_method form
  | Book "User option" http_method form nat
  | Pay http_method form nat
  | Delete_room "User option" nat
  | Edit_room "User option" http_method form nat
  | Admin_dashboard "User option" http_method form

fun handle :: "env \<Rightarrow> request \<Rightarrow> db \<Rightarrow> response \<times> db" where
  "handle e (Search user meth f) d = (search e user meth f d, d)"
| "handle e (Book user meth f room_id) d = book e user meth f room_id d"
| "handle e (Pay meth f reservation_id) d = pay_page e meth f reservation_id d"
| "handle e (Delete_room user room_id) d = delete_room user room_id d"
| "handle e (Edit_room user meth f room_id) d = edit_room e user meth f room_id d"
| "handle e (Admin_dashboard user meth f) d = admin_dashboard e user meth f d"

section \<open>Notions used by the properties\<close>

text \<open>\<^verbatim>\<open>x <= y\<close> on floats.\<close>

definition fle :: "pyfloat \<Rightarrow> pyfloat \<Rightarrow> bool" where
  "fle x y \<longleftrightarrow> flt x y \<or> (x = y \<and> x \<noteq> NaN)"

text \<open>The values of the model that are floats: a rational is one when rounding it to a
  float leaves it unchanged.\<close>

fun is_float :: "pyfloat \<Rightarrow> bool" where
  "is_float (Fin x) = (to_float x = Fin x)"
| "is_float _ = True"

text \<open>The seasonal table as the specification words it: the surge percentage of a
  month.\<close>

definition spec_seasonal_percent :: "nat \<Rightarrow> int" where
  "spec_seasonal_percent m =
     (if m = 12 \<or> m = 1 then 40
      else if m = 6 \<or> m = 7 \<or> m = 8 then 30
      else if m = 3 \<or> m = 4 \<or> m = 5 then 20
      else 0)"

text \<open>The float nearest to a whole number of cents.\<close>

definition cents :: "int \<Rightarrow> pyfloat" where
  "cents k = to_float (rat_of_int k / 100)"

text \<open>
  Rounding to two decimal places in exact arithmetic, as the specification words the
  price formulas.  The rule for ties is a parameter: \<open>round_half_even\<close> for ties to even,
  \<open>round_half_away\<close> for ties away from zero.
\<close>

definition round_half_away :: "rat \<Rightarrow> int" where
  "round_half_away x = (if 0 \<le> x then \<lfloor>x + 1 / 2\<rfloor> else - \<lfloor>- x + 1 / 2\<rfloor>)"

definition spec_round2 :: "(rat \<Rightarrow> int) \<Rightarrow> rat \<Rightarrow> rat" where
  "spec_round2 tie x = rat_of_int (tie (x * 100)) / 100"

text \<open>The deletion guard that the specification calls \<open>canDeleteRoom\<close>: the test
  \<^verbatim>\<open>if active_reservation:\<close> of \<^verbatim>\<open>delete_room\<close>, negated.\<close>

definition can_delete_room :: "db \<Rightarrow> Room \<Rightarrow> bool" where
  "can_delete_room d room \<longleftrightarrow> active_reservation d room = None"

text \<open>The payments recorded against a reservation, and the paid flag that
  \<^verbatim>\<open>get_or_404\<close> finds for a reservation id.\<close>

definition payments_of :: "db \<Rightarrow> nat \<Rightarrow> Payment list" where
  "payments_of d reservation_id = filter (\<lambda>p. Pay_reservation_id p = reservation_id) (payments d)"

definition paid_flag :: "db \<Rightarrow> nat \<Rightarrow> bool option" where
  "paid_flag d reservation_id = map_option Res_paid (get_reservation d reservation_id)"

text \<open>A payment form that \<^verbatim>\<open>pay_page\<close> accepts: both fields are there and the amount
  parses.\<close>

definition valid_payment :: "env \<Rightarrow> form \<Rightarrow> bool" where
  "valid_payment e f \<longleftrightarrow>
     f ''method'' \<noteq> None
     \<and> (case f ''amount'' of None \<Rightarrow> False | Some s \<Rightarrow> float_of_str e s \<noteq> None)"

text \<open>Payments posted one after the other against one reservation, and any requests
  handled one after the other.\<close>

definition pay_all :: "env \<Rightarrow> form list \<Rightarrow> nat \<Rightarrow> db \<Rightarrow> db" where
  "pay_all e fs reservation_id d = fold (\<lambda>f d'. snd (pay_page e POST f reservation_id d')) fs d"

definition run :: "env \<Rightarrow> request list \<Rightarrow> db \<Rightarrow> db" where
  "run e reqs d = fold (\<lambda>req d'. snd (handle e req d')) reqs d"

text \<open>
  The search of the specification, with the sentinel of the type filter as a parameter:
  the available rooms in store order, each with its price of today, without the rooms
  whose type differs from a type filter that is present and not the sentinel, and
  without the rooms whose price of today is greater than a maximum price that parses
  as a number.
\<close>

definition spec_excluded ::
  "string \<Rightarrow> env \<Rightarrow> string option \<Rightarrow> string option \<Rightarrow> Room \<Rightarrow> pyfloat \<Rightarrow> bool" where
  "spec_excluded sentinel e type_filter max_price r price_today \<longleftrightarrow>
     (truthy type_filter \<and> type_filter \<noteq> Some sentinel \<and> Some (Room_room_type r) \<noteq> type_filter)
     \<or> (case max_price of
          None \<Rightarrow> False
        | Some s \<Rightarrow>
            s \<noteq> []
            \<and> (case float_of_str e s of
                  None \<Rightarrow> False
                | Some limit \<Rightarrow> fgt price_today limit))"

definition spec_search ::
  "string \<Rightarrow> env \<Rightarrow> string option \<Rightarrow> string option \<Rightarrow> Room list \<Rightarrow> (Room \<times> pyfloat) list" where
  "spec_search sentinel e type_filter max_price rs =
     List.map_filter
       (\<lambda>r. case calculate_dynamic_price (now_month e) (Room_base_price r) of
               Inl err \<Rightarrow> None
             | Inr price_today \<Rightarrow>
                 if spec_excluded sentinel e type_filter max_price r price_today then None
                 else Some (r, price_today))
       (filter Room_is_available rs)"

section \<open>An environment and a database for the examples\<close>

text \<open>
  The properties below hold for every month and every pair of parsers.  The examples
  run in December with two parsers that accept a part of what the library accepts:
  dates written \<open>YYYY-MM-DD\<close> with all ten characters, numbered as
  \<^verbatim>\<open>date.toordinal()\<close> numbers them, and unsigned decimal numbers with an optional
  fraction.
\<close>

definition digit_of :: "char \<Rightarrow> nat option" where
  "digit_of c = map_of (zip ''0123456789'' [0..<10]) c"

fun number_from :: "nat \<Rightarrow> string \<Rightarrow> nat option" where
  "number_from acc [] = Some acc"
| "number_from acc (c # cs) =
     (case digit_of c of None \<Rightarrow> None | Some k \<Rightarrow> number_from (10 * acc + k) cs)"

definition number_of :: "string \<Rightarrow> nat option" where
  "number_of s = (if s = [] then None else number_from 0 s)"

definition is_leap :: "nat \<Rightarrow> bool" where
  "is_leap y \<longleftrightarrow> y mod 4 = 0 \<and> (y mod 100 \<noteq> 0 \<or> y mod 400 = 0)"

definition days_in_month :: "nat \<Rightarrow> nat \<Rightarrow> nat" where
  "days_in_month y m =
     (if m = 2 then (if is_leap y then 29 else 28)
      else if m = 4 \<or> m = 6 \<or> m = 9 \<or> m = 11 then 30 else 31)"

definition date_ordinal :: "nat \<Rightarrow> nat \<Rightarrow> nat \<Rightarrow> int" where
  "date_ordinal y m d =
     int ((y - 1) * 365 + (y - 1) div 4 - (y - 1) div 100 + (y - 1) div 400
          + sum_list (map (days_in_month y) [1..<m]) + d)"

definition example_strptime :: "string \<Rightarrow> int option" where
  "example_strptime s =
     (if length s = 10 \<and> s ! 4 = CHR ''-'' \<and> s ! 7 = CHR ''-''
      then (case (number_of (take 4 s), number_of (take 2 (drop 5 s)), number_of (drop 8 s)) of
              (Some y, Some m, Some d) \<Rightarrow>
                if 1 \<le> y \<and> 1 \<le> m \<and> m \<le> 12 \<and> 1 \<le> d \<and> d \<le> days_in_month y m
                then Some (date_ordinal y m d) else None
            | _ \<Rightarrow> None)
      else None)"

definition example_float_of_str :: "string \<Rightarrow> pyfloat option" where
  "example_float_of_str s =
     (let whole = takeWhile (\<lambda>c. c \<noteq> CHR ''.'') s;
          rest = dropWhile (\<lambda>c. c \<noteq> CHR ''.'') s
      in case number_of whole of
           None \<Rightarrow> None
         | Some n \<Rightarrow>
             if rest = [] then Some (to_float (of_nat n))
             else (case number_of (tl rest) of
                     None \<Rightarrow> None
                   | Some k \<Rightarrow>
                       Some (to_float (of_nat n + of_nat k / 10 ^ length (tl rest)))))"

definition example_env :: env where
  "example_env =
     \<lparr>now_month = 12, float_of_str = example_float_of_str, strptime = example_strptime\<rparr>"

definition guest :: User where
  "guest = \<lparr>User_id = 7, User_role = ''guest''\<rparr>"

definition staff :: User where
  "staff = \<lparr>User_id = 1, User_role = ''staff''\<rparr>"

definition deluxe_room :: Room where
  "deluxe_room =
     \<lparr>Room_id = 1, Room_room_type = ''Deluxe'', Room_base_price = Fin 100,
      Room_is_available = True, Room_description = ''Sea view''\<rparr>"

definition single_room :: Room where
  "single_room =
     \<lparr>Room_id = 2, Room_room_type = ''Single'', Room_base_price = Fin 50,
      Room_is_available = True, Room_description = ''Courtyard''\<rparr>"

definition taken_room :: Room where
  "taken_room =
     \<lparr>Room_id = 3, Room_room_type = ''Single'', Room_base_price = Fin 60,
      Room_is_available = False, Room_description = ''Garden''\<rparr>"

definition example_db :: db where
  "example_db = \<lparr>rooms = [deluxe_room, single_room, taken_room], reservations = [], payments = []\<rparr>"

definition booking_form :: form where
  "booking_form =
     [''check_in'' \<mapsto> ''2024-12-01'', ''check_out'' \<mapsto> ''2024-12-04'',
      ''payment_method'' \<mapsto> ''card'']"

text \<open>The database after the deluxe room is booked with \<open>booking_form\<close>, the same
  with the reservation not yet paid, and two payment forms.\<close>

definition booked_db :: db where
  "booked_db =
     \<lparr>rooms = [deluxe_room\<lparr>Room_is_available := False\<rparr>, single_room, taken_room],
      reservations =
        [\<lparr>Res_id = 1, Res_user_id = 7, Res_room_id = 1,
          Res_check_in = ''2024-12-01'', Res_check_out = ''2024-12-04'',
          Res_daily_price = Fin 140, Res_days = 3, Res_base_price = Fin 420,
          Res_tax_amount = Fin 42, Res_total_price = Fin 462,
          Res_status = ''confirmed'', Res_paid = True\<rparr>],
      payments = []\<rparr>"

definition unpaid_db :: db where
  "unpaid_db = booked_db\<lparr>reservations := map (\<lambda>r. r\<lparr>Res_paid := False\<rparr>) (reservations booked_db)\<rparr>"

definition card_payment :: form where
  "card_payment = [''method'' \<mapsto> ''card'', ''amount'' \<mapsto> ''200'']"

definition cash_payment :: form where
  "cash_payment = [''method'' \<mapsto> ''cash'', ''amount'' \<mapsto> ''262.00'']"

text \<open>A room of 10.75 in September and a booking of one night.\<close>

definition september_env :: env where
  "september_env = example_env\<lparr>now_month := 9\<rparr>"

definition budget_room :: Room where
  "budget_room =
     \<lparr>Room_id = 4, Room_room_type = ''Single'', Room_base_price = Fin (43 / 4),
      Room_is_available = True, Room_description = ''Attic''\<rparr>"

definition budget_db :: db where
  "budget_db = \<lparr>rooms = [budget_room], reservations = [], payments = []\<rparr>"

definition one_night_form :: form where
  "one_night_form =
     [''check_in'' \<mapsto> ''2024-09-01'', ''check_out'' \<mapsto> ''2024-09-02'',
      ''payment_method'' \<mapsto> ''card'']"

section \<open>Evaluating float arithmetic\<close>

lemma bitlen_numeral_simps:
  "bitlen 1 = 1"
  "bitlen (numeral Num.One) = 1"
  "bitlen (numeral (Num.Bit0 n)) = bitlen (numeral n) + 1"
  "bitlen (numeral (Num.Bit1 n)) = bitlen (numeral n) + 1"
  by (subst compute_bitlen, simp)+

lemma floor_rat_simps:
  "\<lfloor>(numeral a :: rat) / numeral b\<rfloor> = numeral a div numeral b"
  "\<lfloor>- ((numeral a :: rat) / numeral b)\<rfloor> = - numeral a div numeral b"
  "\<lfloor>(1 :: rat) / numeral b\<rfloor> = 1 div numeral b"
  "\<lfloor>- ((1 :: rat) / numeral b)\<rfloor> = - 1 div numeral b"
  using floor_divide_of_int_eq [of "numeral a" "numeral b", where ?'a = rat]
    floor_divide_of_int_eq [of "- numeral a" "numeral b", where ?'a = rat]
    floor_divide_of_int_eq [of 1 "numeral b", where ?'a = rat]
    floor_divide_of_int_eq [of "- 1" "numeral b", where ?'a = rat]
  by simp_all

lemma ceiling_rat_simps:
  "\<lceil>(numeral a :: rat) / numeral b\<rceil> = - (- numeral a div numeral b)"
  "\<lceil>(1 :: rat) / numeral b\<rceil> = - (- 1 div numeral b)"
  by (simp_all add: ceiling_def floor_rat_simps)

lemmas float_eval = to_float_def ilog2_def pow2_def round_half_even_def Let_def
  bitlen_numeral_simps floor_rat_simps ceiling_rat_simps

lemma to_float_0 [simp]: "to_float 0 = Fin 0"
  by (simp add: to_float_def)

lemma TAX_RATE_eq: "TAX_RATE = Fin (3602879701896397 / 36028797018963968)"
  by (simp add: TAX_RATE_def float_eval)

lemma WINTER_SURGE_eq: "WINTER_SURGE = Fin (3602879701896397 / 9007199254740992)"
  by (simp add: WINTER_SURGE_def float_eval)

lemma SUMMER_SURGE_eq: "SUMMER_SURGE = Fin (5404319552844595 / 18014398509481984)"
  by (simp add: SUMMER_SURGE_def float_eval)

lemma SPRING_SURGE_eq: "SPRING_SURGE = Fin (3602879701896397 / 18014398509481984)"
  by (simp add: SPRING_SURGE_def float_eval)

lemma one_plus_surge:
  "fadd (Fin 1) WINTER_SURGE = Fin (3152519739159347 / 2251799813685248)"
  "fadd (Fin 1) SUMMER_SURGE = Fin (5854679515581645 / 4503599627370496)"
  "fadd (Fin 1) SPRING_SURGE = Fin (5404319552844595 / 4503599627370496)"
  "fadd (Fin 1) (Fin 0) = Fin 1"
  by (simp_all add: WINTER_SURGE_eq SUMMER_SURGE_eq SPRING_SURGE_eq float_eval)

lemma surge_percent:
  "py_int (fmul WINTER_SURGE (Fin 100)) = Inr 40"
  "py_int (fmul SUMMER_SURGE (Fin 100)) = Inr 30"
  "py_int (fmul SPRING_SURGE (Fin 100)) = Inr 20"
  "py_int (fmul (Fin 0) (Fin 100)) = Inr 0"
  by (simp_all add: WINTER_SURGE_eq SUMMER_SURGE_eq SPRING_SURGE_eq float_eval)

section \<open>The price breakdown in closed form\<close>

lemma seasonal_percent_of_month:
  "py_int (fmul (seasonal_factor_of m) (Fin 100)) = Inr (spec_seasonal_percent m)"
  by (simp add: seasonal_factor_of_def spec_seasonal_percent_def surge_percent
      del: fmul.simps py_int.simps)

lemma seasonal_factor_of_percent:
  "seasonal_factor_of m = to_float (rat_of_int (spec_seasonal_percent m) / 100)"
  by (simp add: seasonal_factor_of_def spec_seasonal_percent_def WINTER_SURGE_def
      SUMMER_SURGE_def SPRING_SURGE_def)

lemma calculate_price_breakdown_eq:
  "calculate_price_breakdown m b =
     Inr \<lparr>base_price = b,
          seasonal_percent = spec_seasonal_percent m,
          price_before_tax = round2 (fmul b (fadd (Fin 1) (seasonal_factor_of m))),
          tax_amount =
            round2 (fmul (round2 (fmul b (fadd (Fin 1) (seasonal_factor_of m)))) TAX_RATE),
          total_price =
            round2 (fadd (round2 (fmul b (fadd (Fin 1) (seasonal_factor_of m))))
              (round2 (fmul (round2 (fmul b (fadd (Fin 1) (seasonal_factor_of m)))) TAX_RATE)))\<rparr>"
  by (simp add: calculate_price_breakdown_def Let_def seasonal_percent_of_month)

lemma calculate_dynamic_price_eq:
  "calculate_dynamic_price m b = Inr (round2 (fmul b (fadd (Fin 1) (seasonal_factor_of m))))"
  by (simp add: calculate_dynamic_price_def calculate_price_breakdown_eq)

lemmas price_eval = calculate_price_breakdown_eq calculate_dynamic_price_eq
  seasonal_factor_of_def spec_seasonal_percent_def one_plus_surge TAX_RATE_eq float_eval

lemma one_plus_factor_cases:
  "(case fadd (Fin 1) (seasonal_factor_of m) of Fin c \<Rightarrow> 1 \<le> c | _ \<Rightarrow> False)"
  by (simp add: seasonal_factor_of_def one_plus_surge del: fadd.simps)

lemma one_plus_factor: "\<exists>c. fadd (Fin 1) (seasonal_factor_of m) = Fin c \<and> 1 \<le> c"
  using one_plus_factor_cases [of m] by (auto split: pyfloat.splits)

lemma off_season_factor:
  "spec_seasonal_percent m = 0 \<Longrightarrow> seasonal_factor_of m = Fin 0"
  by (auto simp: spec_seasonal_percent_def seasonal_factor_of_def split: if_splits)

section \<open>Signs and magnitudes under rounding\<close>

lemma pow2_pos: "0 < pow2 e"
  by (simp add: pow2_def)

lemma round_half_even_nonneg: "0 \<le> x \<Longrightarrow> 0 \<le> round_half_even x"
  by (auto simp: round_half_even_def Let_def)

lemma round_half_even_nonpos:
  assumes "x \<le> 0"
  shows "round_half_even x \<le> 0"
proof (cases "x = 0")
  case True
  then show ?thesis by (simp add: round_half_even_def)
next
  case False
  define f where "f = \<lfloor>x\<rfloor>"
  from False assms have "x < 0" by simp
  then have "f < 0" unfolding f_def by (simp add: floor_less_iff)
  then have "f + 1 \<le> 0" by simp
  moreover have "round_half_even x \<le> f + 1"
    unfolding round_half_even_def Let_def f_def [symmetric] by simp
  ultimately show ?thesis by linarith
qed

lemma fle_Fin [simp]: "fle (Fin x) (Fin y) \<longleftrightarrow> x \<le> y"
  by (auto simp: fle_def)

lemma fle_NInf_Fin [simp]: "fle NInf (Fin y)"
  by (simp add: fle_def)

lemma fle_PInf_Fin [simp]: "\<not> fle PInf (Fin y)"
  by (simp add: fle_def)

lemma fle_NaN [simp]: "\<not> fle NaN q"
  by (simp add: fle_def)

lemma to_float_nonpos:
  assumes "x \<le> 0"
  shows "fle (to_float x) (Fin 0)"
proof (cases "x = 0")
  case True
  then show ?thesis by simp
next
  case False
  define e where "e = max (ilog2 \<bar>x\<bar> - 52) (- 1074)"
  define m where "m = round_half_even (\<bar>x\<bar> / pow2 e)"
  have "0 \<le> \<bar>x\<bar> / pow2 e" using pow2_pos [of e] by simp
  then have "0 \<le> m" unfolding m_def by (rule round_half_even_nonneg)
  then have "0 \<le> rat_of_int m * pow2 e" using pow2_pos [of e] by simp
  moreover have "to_float x =
      (if 971 < e \<or> (e = 971 \<and> m = 2 ^ 53) then (if 0 < x then PInf else NInf)
       else Fin (sgn x * rat_of_int m * pow2 e))"
    using False unfolding to_float_def Let_def e_def m_def by simp
  moreover from False assms have "x < 0" by simp
  ultimately show ?thesis by (simp add: mult.assoc)
qed

lemma round2_nonpos: 
  assumes "fle p (Fin 0)"
  shows "fle (round2 p) (Fin 0)"
proof (cases p)
  case (Fin x)
  with assms have "x \<le> 0" by simp
  then have "round_half_even (x * 100) \<le> 0"
    by (intro round_half_even_nonpos) (simp add: mult_le_0_iff)
  then have "rat_of_int (round_half_even (x * 100)) / 100 \<le> 0" by simp
  then show ?thesis using Fin by (simp add: to_float_nonpos)
qed (use assms in auto)

lemma fmul_nonpos:
  assumes "fle p (Fin 0)" and "0 < c"
  shows "fle (fmul p (Fin c)) (Fin 0)"
proof (cases p)
  case (Fin x)
  with assms have "x * c \<le> 0" by (simp add: mult_le_0_iff)
  then show ?thesis using Fin by (simp add: to_float_nonpos)
qed (use assms in auto)

lemma fadd_nonpos:
  assumes "fle p (Fin 0)" and "fle q (Fin 0)"
  shows "fle (fadd p q) (Fin 0)"
proof (cases p)
  case p: (Fin x)
  show ?thesis
  proof (cases q)
    case (Fin y)
    with p assms have "x + y \<le> 0" by simp
    then show ?thesis using p Fin by (simp add: to_float_nonpos)
  qed (use p assms in auto)
next
  case p: NInf
  show ?thesis by (cases q) (use p assms in auto)
qed (use assms in auto)

lemma flt_imp_fle: "flt p q \<Longrightarrow> fle p q"
  by (simp add: fle_def)

lemma fmul_one: "is_float b \<Longrightarrow> fmul b (Fin 1) = b"
  by (cases b) auto

lemma pow2_powi: "pow2 e = 2 powi e"
  by (simp add: pow2_def power_int_def power_one_over inverse_eq_divide)

lemma pow2_add: "pow2 (a + b) = pow2 a * pow2 b"
  by (simp add: pow2_powi power_int_add)

lemma pow2_mono: "a \<le> b \<Longrightarrow> pow2 a \<le> pow2 b"
  by (simp add: pow2_powi power_int_increasing)

lemma pow2_less_imp: "pow2 a < pow2 b \<Longrightarrow> a < b"
  using pow2_mono [of b a] by (cases "a < b") auto

lemma pow2_nat: "0 \<le> k \<Longrightarrow> pow2 k = 2 ^ nat k"
  by (simp add: pow2_def)

lemma ilog2_bounds:
  assumes "0 < a"
  shows "pow2 (ilog2 a) \<le> a" and "a < pow2 (ilog2 a + 1)"
proof -
  have "pow2 (ilog2 a) \<le> a \<and> a < pow2 (ilog2 a + 1)"
  proof (cases "1 \<le> a")
    case True
    define n where "n = \<lfloor>a\<rfloor>"
    from True have n: "0 < n" unfolding n_def by simp
    have k: "1 \<le> bitlen n" using n bitlen_eq_zero_iff [of n] bitlen_nonneg [of n] by linarith
    from bitlen_bounds [OF n] have lo: "2 ^ nat (bitlen n - 1) \<le> n" and hi: "n < 2 ^ nat (bitlen n)"
      by simp_all
    have "pow2 (bitlen n - 1) = rat_of_int (2 ^ nat (bitlen n - 1))"
      using k by (simp add: pow2_nat)
    also have "\<dots> \<le> rat_of_int n" using lo by (simp only: of_int_le_iff)
    also have "\<dots> \<le> a" unfolding n_def by simp
    finally have 1: "pow2 (bitlen n - 1) \<le> a" .
    have "n + 1 \<le> 2 ^ nat (bitlen n)" using hi by simp
    then have "rat_of_int (n + 1) \<le> rat_of_int (2 ^ nat (bitlen n))" by (simp only: of_int_le_iff)
    moreover have "a < rat_of_int (n + 1)" unfolding n_def
      using floor_correct [of a] by simp
    ultimately have "a < pow2 (bitlen n)" using k by (simp add: pow2_nat)
    with 1 True show ?thesis by (simp add: ilog2_def n_def)
  next
    case False
    define c where "c = \<lceil>1 / a\<rceil>"
    define n where "n = c - 1"
    from False assms have inv: "1 < 1 / a" by simp
    then have "1 < c" unfolding c_def by (simp add: less_ceiling_iff)
    then have n: "0 < n" unfolding n_def by simp
    have k: "1 \<le> bitlen n" using n bitlen_eq_zero_iff [of n] bitlen_nonneg [of n] by linarith
    from bitlen_bounds [OF n] have lo: "2 ^ nat (bitlen n - 1) \<le> n" and hi: "n < 2 ^ nat (bitlen n)"
      by simp_all
    have "c \<le> 2 ^ nat (bitlen n)" using hi by (simp add: n_def)
    then have c_le: "rat_of_int c \<le> rat_of_int (2 ^ nat (bitlen n))"
      by (simp only: of_int_le_iff)
    have "1 / a \<le> rat_of_int c" unfolding c_def by simp
    also note c_le
    finally have "1 / a \<le> 2 ^ nat (bitlen n)" by simp
    then have "1 / 2 ^ nat (bitlen n) \<le> a" using assms
      by (simp add: field_simps)
    then have 1: "pow2 (- bitlen n) \<le> a" using k by (simp add: pow2_def)
    have "rat_of_int (2 ^ nat (bitlen n - 1)) \<le> rat_of_int n" using lo by (simp only: of_int_le_iff)
    also have "rat_of_int n < 1 / a" unfolding n_def c_def
      using ceiling_correct [of "1 / a"] by simp
    finally have "2 ^ nat (bitlen n - 1) < 1 / a" by simp
    then have "a < 1 / 2 ^ nat (bitlen n - 1)" using assms by (simp add: field_simps)
    moreover have "pow2 (- bitlen n + 1) = 1 / 2 ^ nat (bitlen n - 1)"
    proof (cases "bitlen n = 1")
      case True
      then show ?thesis by (simp add: pow2_def)
    next
      case False
      with k have "- bitlen n + 1 < 0" by simp
      then show ?thesis by (simp add: pow2_def)
    qed
    ultimately have "a < pow2 (- bitlen n + 1)" by simp
    with 1 False show ?thesis by (simp add: ilog2_def n_def c_def)
  qed
  then show "pow2 (ilog2 a) \<le> a" and "a < pow2 (ilog2 a + 1)" by simp_all
qed

lemma round_half_even_ge: "rat_of_int n \<le> z \<Longrightarrow> n \<le> round_half_even z"
proof -
  assume "rat_of_int n \<le> z"
  then have "n \<le> \<lfloor>z\<rfloor>" by (simp add: le_floor_iff)
  moreover have "\<lfloor>z\<rfloor> \<le> round_half_even z"
    by (simp add: round_half_even_def Let_def)
  ultimately show ?thesis by simp
qed

lemma to_float_le_neg:
  assumes "x \<le> - pow2 k" and "- 1022 \<le> k"
  shows "fle (to_float x) (Fin (- pow2 k))"
proof -
  from assms(1) pow2_pos [of k] have neg: "x < 0" by linarith
  define a where "a = \<bar>x\<bar>"
  from neg assms(1) have a: "pow2 k \<le> a" "0 < a" unfolding a_def by simp_all
  define E where "E = ilog2 a"
  from ilog2_bounds [OF a(2)] have E: "pow2 E \<le> a" "a < pow2 (E + 1)" unfolding E_def by simp_all
  from a(1) E(2) have "pow2 k < pow2 (E + 1)" by simp
  then have kE: "k \<le> E" using pow2_less_imp [of k "E + 1"] by simp
  define e where "e = max (E - 52) (- 1074)"
  from kE assms(2) have e: "e = E - 52" unfolding e_def by simp
  define m where "m = round_half_even (a / pow2 e)"
  have "pow2 E = pow2 52 * pow2 e" unfolding e using pow2_add [of 52 "E - 52"] by simp
  then have "pow2 52 * pow2 e \<le> a" using E(1) by simp
  then have "pow2 52 \<le> a / pow2 e" using pow2_pos [of e] by (simp add: field_simps)
  then have "rat_of_int (2 ^ 52) \<le> a / pow2 e" by (simp add: pow2_def)
  then have "2 ^ 52 \<le> m" unfolding m_def by (rule round_half_even_ge)
  then have "rat_of_int (2 ^ 52) \<le> rat_of_int m" by (simp only: of_int_le_iff)
  then have "pow2 52 \<le> rat_of_int m" by (simp add: pow2_def)
  then have "pow2 52 * pow2 e \<le> rat_of_int m * pow2 e"
    using pow2_pos [of e] by simp
  with \<open>pow2 E = pow2 52 * pow2 e\<close> have "pow2 E \<le> rat_of_int m * pow2 e" by simp
  moreover from kE have "pow2 k \<le> pow2 E" by (rule pow2_mono)
  ultimately have big: "pow2 k \<le> rat_of_int m * pow2 e" by linarith
  have "x \<noteq> 0" using neg by simp
  then have "to_float x =
      (if 971 < e \<or> (e = 971 \<and> m = 2 ^ 53) then (if 0 < x then PInf else NInf)
       else Fin (sgn x * rat_of_int m * pow2 e))"
    unfolding to_float_def Let_def e_def m_def E_def a_def by simp
  with neg big show ?thesis by (simp add: mult.assoc)
qed

lemma round_half_even_le:
  assumes "z \<le> rat_of_int n"
  shows "round_half_even z \<le> n"
proof -
  define f where "f = \<lfloor>z\<rfloor>"
  have fz: "rat_of_int f \<le> z" unfolding f_def by simp
  with assms have "rat_of_int f \<le> rat_of_int n" by linarith
  then have fn: "f \<le> n" by (simp only: of_int_le_iff)
  show ?thesis
  proof (cases "f = n")
    case True
    with fz assms have "z = rat_of_int f" by simp
    then have "round_half_even z = f" by (simp add: round_half_even_def)
    with True show ?thesis by simp
  next
    case False
    with fn have "f + 1 \<le> n" by simp
    moreover have "round_half_even z \<le> f + 1"
      unfolding round_half_even_def Let_def f_def [symmetric] by simp
    ultimately show ?thesis by linarith
  qed
qed

lemma neg_mult_le:
  fixes x c d :: rat
  assumes "x \<le> - 1" and "d \<le> c" and "0 \<le> d"
  shows "x * c \<le> - d"
proof -
  from assms have "0 \<le> c" by simp
  with assms(1) have "x * c \<le> (- 1) * c" by (rule mult_right_mono)
  with assms(2) show ?thesis by simp
qed

lemma to_float_le_neg1: "x \<le> - 1 \<Longrightarrow> fle (to_float x) (Fin (- 1))"
  using to_float_le_neg [of x 0] by (simp add: pow2_def)

lemma fmul_le_neg1:
  assumes "fle p (Fin (- 1))" and "1 \<le> c"
  shows "fle (fmul p (Fin c)) (Fin (- 1))"
proof (cases p)
  case (Fin x)
  with assms have "x \<le> - 1" by simp
  with assms(2) have "x * c \<le> - 1"
    by (intro neg_mult_le) simp_all
  then show ?thesis using Fin by (simp add: to_float_le_neg1)
qed (use assms in auto)

lemma round2_le_neg1:
  assumes "fle p (Fin (- 1))"
  shows "fle (round2 p) (Fin (- 1))"
proof (cases p)
  case (Fin x)
  with assms have "x \<le> - 1" by simp
  then have "x * 100 \<le> rat_of_int (- 100)" by simp
  then have "round_half_even (x * 100) \<le> - 100" by (rule round_half_even_le)
  then have "rat_of_int (round_half_even (x * 100)) \<le> rat_of_int (- 100)"
    by (simp only: of_int_le_iff)
  then have "rat_of_int (round_half_even (x * 100)) / 100 \<le> - 1" by simp
  then show ?thesis using Fin by (simp add: to_float_le_neg1)
qed (use assms in auto)

lemma fadd_le_neg1:
  assumes "fle p (Fin (- 1))" and "fle q (Fin 0)"
  shows "fle (fadd p q) (Fin (- 1))"
proof (cases p)
  case p: (Fin x)
  show ?thesis
  proof (cases q)
    case (Fin y)
    with p assms have "x + y \<le> - 1" by simp
    then show ?thesis using p Fin by (simp add: to_float_le_neg1)
  qed (use p assms in auto)
next
  case p: NInf
  show ?thesis by (cases q) (use p assms in auto)
qed (use assms in auto)

lemma tax_negative:
  assumes "fle p (Fin (- 1))"
  shows "flt (round2 (fmul p TAX_RATE)) (Fin 0)"
proof (cases p)
  case (Fin x)
  let ?t = "3602879701896397 / 36028797018963968 :: rat"
  from Fin assms have x: "x \<le> - 1" by simp
  have "x * ?t \<le> - (1 / 16)"
    using x by (intro neg_mult_le) simp_all
  then have "x * ?t \<le> - pow2 (- 4)" by (simp add: pow2_def)
  then have "fle (to_float (x * ?t)) (Fin (- pow2 (- 4)))"
    by (rule to_float_le_neg) simp
  then have 1: "fle (fmul p TAX_RATE) (Fin (- (1 / 16)))"
    using Fin by (simp add: TAX_RATE_eq pow2_def)
  show ?thesis
  proof (cases "fmul p TAX_RATE")
    case (Fin y)
    with 1 have "y \<le> - (1 / 16)" by simp
    then have "y * 100 \<le> rat_of_int (- 6)" by simp
    then have "round_half_even (y * 100) \<le> - 6" by (rule round_half_even_le)
    then have "rat_of_int (round_half_even (y * 100)) \<le> rat_of_int (- 6)"
      by (simp only: of_int_le_iff)
    then have "rat_of_int (round_half_even (y * 100)) / 100 \<le> - pow2 (- 5)"
      by (simp add: pow2_def)
    then have "fle (to_float (rat_of_int (round_half_even (y * 100)) / 100)) (Fin (- pow2 (- 5)))"
      by (rule to_float_le_neg) simp
    then show ?thesis using Fin
      by (cases "to_float (rat_of_int (round_half_even (y * 100)) / 100)")
        (simp_all add: pow2_def)
  qed (use 1 in auto)
qed (use assms in \<open>auto simp: TAX_RATE_eq\<close>)

lemma fle_neg1_imp_flt: "fle p (Fin (- 1)) \<Longrightarrow> flt p (Fin 0)"
  by (cases p) auto

section \<open>Accuracy of rounded amounts\<close>

lemma round_half_even_error: "\<bar>rat_of_int (round_half_even z) - z\<bar> \<le> 1 / 2"
proof -
  define f where "f = \<lfloor>z\<rfloor>"
  have 1: "rat_of_int f \<le> z" and 2: "z < rat_of_int f + 1"
    unfolding f_def using floor_correct [of z] by simp_all
  show ?thesis
    unfolding round_half_even_def Let_def f_def [symmetric]
    using 1 2 by (auto simp: abs_if)
qed

lemma tiny_le: "pow2 (- 1075) \<le> 1 / 2 ^ 54" and tiny_pos: "0 < pow2 (- 1075)"
  by (simp_all add: pow2_def)

lemma to_float_error:
  assumes "\<bar>x\<bar> < pow2 1023"
  shows "\<exists>y. to_float x = Fin y \<and> \<bar>y - x\<bar> \<le> \<bar>x\<bar> / 2 ^ 53 + pow2 (- 1075)
           \<and> (0 \<le> x \<longrightarrow> 0 \<le> y)"
proof (cases "x = 0")
  case True
  then show ?thesis using tiny_pos by simp
next
  case False
  define a where "a = \<bar>x\<bar>"
  from False have a: "0 < a" unfolding a_def by simp
  define E where "E = ilog2 a"
  from ilog2_bounds [OF a] have E: "pow2 E \<le> a" "a < pow2 (E + 1)" unfolding E_def by simp_all
  from E(1) assms have "pow2 E < pow2 1023" unfolding a_def by simp
  then have E_hi: "E < 1023" by (rule pow2_less_imp)
  define e where "e = max (E - 52) (- 1074)"
  define m where "m = round_half_even (a / pow2 e)"
  have e_hi: "e \<le> 970" using E_hi unfolding e_def by simp
  have m0: "0 \<le> m" unfolding m_def
    using a pow2_pos [of e] by (intro round_half_even_nonneg) simp
  have "to_float x =
      (if 971 < e \<or> (e = 971 \<and> m = 2 ^ 53) then (if 0 < x then PInf else NInf)
       else Fin (sgn x * rat_of_int m * pow2 e))"
    using False unfolding to_float_def Let_def e_def m_def E_def a_def by simp
  with e_hi have tf: "to_float x = Fin (sgn x * rat_of_int m * pow2 e)" by simp
  have "\<bar>rat_of_int m - a / pow2 e\<bar> \<le> 1 / 2"
    unfolding m_def by (rule round_half_even_error)
  then have "\<bar>rat_of_int m - a / pow2 e\<bar> * pow2 e \<le> (1 / 2) * pow2 e"
    using pow2_pos [of e] by (intro mult_right_mono) simp_all
  moreover have "\<bar>rat_of_int m - a / pow2 e\<bar> * pow2 e = \<bar>rat_of_int m * pow2 e - a\<bar>"
  proof -
    have "(rat_of_int m - a / pow2 e) * pow2 e = rat_of_int m * pow2 e - a"
      using pow2_pos [of e] by (simp add: left_diff_distrib)
    then have "\<bar>rat_of_int m * pow2 e - a\<bar> = \<bar>rat_of_int m - a / pow2 e\<bar> * \<bar>pow2 e\<bar>"
      by (simp only: abs_mult [symmetric])
    then show ?thesis using pow2_pos [of e] by simp
  qed
  ultimately have err: "\<bar>rat_of_int m * pow2 e - a\<bar> \<le> pow2 e / 2" by simp
  have "pow2 e / 2 \<le> a / 2 ^ 53 + pow2 (- 1075)"
  proof (cases "E - 52 \<le> - 1074")
    case True
    then have "e = - 1074" unfolding e_def by simp
    then have "pow2 e / 2 = pow2 (- 1075)" using pow2_add [of "- 1075" 1] by (simp add: pow2_def)
    then show ?thesis using a by simp
  next
    case False
    then have "e = E - 52" unfolding e_def by simp
    then have "pow2 E = pow2 e * 2 ^ 52" using pow2_add [of e 52] by (simp add: pow2_def)
    with E(1) have "pow2 e * 2 ^ 52 \<le> a" by simp
    then have "pow2 e / 2 \<le> a / 2 ^ 53" by simp
    then show ?thesis using tiny_pos by linarith
  qed
  with err have bound: "\<bar>rat_of_int m * pow2 e - a\<bar> \<le> a / 2 ^ 53 + pow2 (- 1075)" by linarith
  have "\<bar>sgn x * rat_of_int m * pow2 e - x\<bar> = \<bar>rat_of_int m * pow2 e - a\<bar>"
  proof (cases "0 < x")
    case True
    then show ?thesis unfolding a_def by simp
  next
    case neg: False
    with False have "x < 0" by simp
    then have "sgn x * rat_of_int m * pow2 e - x = - (rat_of_int m * pow2 e - a)"
      unfolding a_def by simp
    then show ?thesis by (simp only: abs_minus_cancel)
  qed
  with bound have 1: "\<bar>sgn x * rat_of_int m * pow2 e - x\<bar> \<le> \<bar>x\<bar> / 2 ^ 53 + pow2 (- 1075)"
    unfolding a_def by simp
  have 2: "0 \<le> sgn x * rat_of_int m * pow2 e" if "0 \<le> x"
    using that False m0 pow2_pos [of e] by simp
  from tf 1 2 show ?thesis by blast
qed


lemma range_facts:
  "(2::rat) ^ 1010 < pow2 1023" "2 * (2::rat) ^ 1010 + 1 < pow2 1023"
  by (simp_all add: pow2_def)

lemma tiny_le_num: "pow2 (- 1075) \<le> 1 / 18014398509481984"
  using tiny_le by simp

lemma to_float_error_nonneg:
  assumes "0 \<le> x" and "x < pow2 1023"
  shows "\<exists>y. to_float x = Fin y \<and> 0 \<le> y
           \<and> y \<le> x + x / 9007199254740992 + pow2 (- 1075)
           \<and> x - x / 9007199254740992 - pow2 (- 1075) \<le> y"
proof -
  from assms have "\<bar>x\<bar> < pow2 1023" by simp
  from to_float_error [OF this] assms(1) obtain y where
    y: "to_float x = Fin y" "\<bar>y - x\<bar> \<le> \<bar>x\<bar> / 2 ^ 53 + pow2 (- 1075)" "0 \<le> y"
    by auto
  have "(2::rat) ^ 53 = 9007199254740992" by simp
  with y(2) assms(1) have "\<bar>y - x\<bar> \<le> x / 9007199254740992 + pow2 (- 1075)" by simp
  then have "y \<le> x + x / 9007199254740992 + pow2 (- 1075)"
    and "x - x / 9007199254740992 - pow2 (- 1075) \<le> y"
    by linarith+
  with y(1,3) show ?thesis by blast
qed

lemma round2_accuracy:
  assumes "0 \<le> x" and "x \<le> 2 ^ 1010"
  shows "\<exists>k r. round2 (to_float x) = Fin r \<and> cents k = Fin r \<and> 0 \<le> r \<and> r \<le> 2 * x + 1
           \<and> \<bar>r - x\<bar> \<le> 1 / 200 + (x + 1) / 2 ^ 51"
proof -
  define t where "t = pow2 (- 1075)"
  define B :: rat where "B = 2 ^ 1010"
  have t: "0 < t" "t \<le> 1 / 18014398509481984"
    unfolding t_def using tiny_pos tiny_le_num by simp_all
  have B: "x \<le> B" "B < pow2 1023" "2 * B + 1 < pow2 1023"
    unfolding B_def using assms(2) range_facts by simp_all
  from B have "x < pow2 1023" by linarith
  from to_float_error_nonneg [OF assms(1) this] obtain y where
    y: "to_float x = Fin y" "0 \<le> y" "y \<le> x + x / 9007199254740992 + t"
      "x - x / 9007199254740992 - t \<le> y"
    unfolding t_def by blast
  define k where "k = round_half_even (y * 100)"
  define q where "q = rat_of_int k / 100"
  have "\<bar>rat_of_int k - y * 100\<bar> \<le> 1 / 2" unfolding k_def by (rule round_half_even_error)
  moreover have "rat_of_int k = q * 100" unfolding q_def by simp
  ultimately have qy: "q \<le> y + 1 / 200" "y - 1 / 200 \<le> q" by linarith+
  have "0 \<le> k" unfolding k_def using y(2) by (intro round_half_even_nonneg) simp
  then have q0: "0 \<le> q" unfolding q_def by simp
  from qy(1) y(3) assms(1) B(1) t have "q \<le> 2 * B + 1" by linarith
  with B(3) have "q < pow2 1023" by linarith
  from to_float_error_nonneg [OF q0 this] obtain r where
    r: "to_float q = Fin r" "0 \<le> r" "r \<le> q + q / 9007199254740992 + t"
      "q - q / 9007199254740992 - t \<le> r"
    unfolding t_def by blast
  have 1: "round2 (to_float x) = Fin r"
    using r(1) unfolding q_def k_def by (simp add: y(1))
  have 2: "cents k = Fin r" using r(1) by (simp add: cents_def q_def)
  have xe: "0 \<le> x / 9007199254740992" "x / 9007199254740992 \<le> x / 4503599627370496"
    using assms(1) by simp_all
  from qy(1) y(3) t xe have q_up: "q \<le> x + x / 9007199254740992 + 1 / 100" by linarith
  then have "q / 9007199254740992 \<le> (x + x / 9007199254740992 + 1 / 100) / 9007199254740992"
    by (rule divide_right_mono) simp
  also have "\<dots> \<le> x / 4503599627370496 + 1 / 9007199254740992"
    using assms(1) by (simp add: field_simps)
  finally have qe: "q / 9007199254740992 \<le> x / 4503599627370496 + 1 / 9007199254740992" .
  have qe0: "0 \<le> q / 9007199254740992" using q0 by simp
  from q_up qe r(3) t xe have 3: "r \<le> 2 * x + 1" by linarith
  have x51: "(x + 1) / 2251799813685248 = x / 2251799813685248 + 1 / 2251799813685248"
    by (simp add: add_divide_distrib)
  have x52: "x / 4503599627370496 + x / 4503599627370496 = x / 2251799813685248" by simp
  from qy(1) y(3) r(3) qe t xe x52
  have "r - x \<le> 1 / 200 + (x + 1) / 2251799813685248" unfolding x51 by linarith
  moreover from qy(2) y(4) r(4) qe qe0 t xe x52
  have "x - r \<le> 1 / 200 + (x + 1) / 2251799813685248" unfolding x51 by linarith
  ultimately have "r - x \<le> 1 / 200 + (x + 1) / 2251799813685248"
    and "x - r \<le> 1 / 200 + (x + 1) / 2251799813685248" by simp_all
  then have "\<bar>r - x\<bar> \<le> 1 / 200 + (x + 1) / 2251799813685248" by linarith
  moreover have "(2::rat) ^ 51 = 2251799813685248" by simp
  ultimately have 4: "\<bar>r - x\<bar> \<le> 1 / 200 + (x + 1) / 2 ^ 51" by simp
  from 1 2 3 4 r(2) show ?thesis by blast
qed

lemma one_plus_factor_accuracy_cases:
  "(case fadd (Fin 1) (seasonal_factor_of m) of
      Fin c \<Rightarrow> 1 \<le> c \<and> c \<le> 2
        \<and> \<bar>c - (1 + rat_of_int (spec_seasonal_percent m) / 100)\<bar> \<le> 1 / 4503599627370496
    | _ \<Rightarrow> False)"
  by (simp add: seasonal_factor_of_def spec_seasonal_percent_def one_plus_surge del: fadd.simps)

lemma one_plus_factor_accuracy:
  "\<exists>c. fadd (Fin 1) (seasonal_factor_of m) = Fin c \<and> 1 \<le> c \<and> c \<le> 2
     \<and> \<bar>c - (1 + rat_of_int (spec_seasonal_percent m) / 100)\<bar> \<le> 1 / 4503599627370496"
  using one_plus_factor_accuracy_cases [of m] by (auto split: pyfloat.splits)

lemma big_powers:
  "(2::rat) ^ 1010 = 1024 * 2 ^ 1000" "(1::rat) \<le> 2 ^ 1000"
  by simp_all

lemma scale49: "(x + 1) / 2 ^ 49 = x / 562949953421312 + 1 / (562949953421312 :: rat)"
  by (simp add: add_divide_distrib)

lemma scale51: "(x + 1) / 2 ^ 51 = x / 2251799813685248 + 1 / (2251799813685248 :: rat)"
  by (simp add: add_divide_distrib)

lemma widen_bound:
  fixes r x :: rat
  assumes "\<bar>r - x\<bar> \<le> 1 / 200 + (x + 1) / 2 ^ 51" and "0 \<le> x"
  shows "\<bar>r - x\<bar> \<le> 1 / 200 + (x + 1) / 2 ^ 49"
proof -
  from assms(2) have "(x + 1) / 2 ^ 51 \<le> (x + 1) / 2 ^ 49"
    by (intro divide_left_mono) simp_all
  with assms(1) show ?thesis by linarith
qed

lemma tax_total_accuracy:
  assumes "0 \<le> p" and "p \<le> 32 * 2 ^ 1000"
  shows "\<exists>t u k2 k3.
      round2 (fmul (Fin p) TAX_RATE) = Fin t \<and> round2 (fadd (Fin p) (Fin t)) = Fin u
    \<and> cents k2 = Fin t \<and> cents k3 = Fin u
    \<and> \<bar>t - p * (10 / 100)\<bar> \<le> 1 / 200 + (p + 1) / 2 ^ 49
    \<and> \<bar>u - (p + t)\<bar> \<le> 1 / 200 + (p + t + 1) / 2 ^ 49"
proof -
  define B :: rat where "B = 2 ^ 1000"
  have B: "1 \<le> B" "(2::rat) ^ 1010 = 1024 * B" "p \<le> 32 * B"
    unfolding B_def using big_powers assms(2) by simp_all
  let ?x = "p * (3602879701896397 / 36028797018963968)"
  have x0: "0 \<le> ?x" using assms(1) by simp
  have "?x \<le> 2 ^ 1010" unfolding B(2) using assms(1) B(1,3) by linarith
  from round2_accuracy [OF x0 this] obtain k2 t where
    t: "round2 (to_float ?x) = Fin t" "cents k2 = Fin t" "0 \<le> t" "t \<le> 2 * ?x + 1"
      "\<bar>t - ?x\<bar> \<le> 1 / 200 + (?x + 1) / 2 ^ 51"
    by blast
  have 1: "round2 (fmul (Fin p) TAX_RATE) = Fin t" using t(1) by (simp add: TAX_RATE_eq)
  from t(5) assms(1) have tb: "\<bar>t - p * (10 / 100)\<bar> \<le> 1 / 200 + (p + 1) / 2 ^ 49"
    unfolding scale49 scale51 by linarith
  have s0: "0 \<le> p + t" using assms(1) t(3) by simp
  have "p + t \<le> 2 ^ 1010" unfolding B(2) using assms(1) B(1,3) t(4) by linarith
  from round2_accuracy [OF s0 this] obtain k3 u where
    u: "round2 (to_float (p + t)) = Fin u" "cents k3 = Fin u"
      "\<bar>u - (p + t)\<bar> \<le> 1 / 200 + (p + t + 1) / 2 ^ 51"
    by blast
  have 2: "round2 (fadd (Fin p) (Fin t)) = Fin u" using u(1) by simp
  from u(3) s0 have ub: "\<bar>u - (p + t)\<bar> \<le> 1 / 200 + (p + t + 1) / 2 ^ 49"
    by (rule widen_bound)
  from 1 2 t(2) u(2) tb ub show ?thesis by blast
qed

lemma price_before_tax_accuracy:
  assumes "0 \<le> b" and "b \<le> 2 ^ 1000"
  shows "\<exists>p k1. round2 (fmul (Fin b) (fadd (Fin 1) (seasonal_factor_of m))) = Fin p
    \<and> cents k1 = Fin p \<and> 0 \<le> p \<and> p \<le> 4 * b + 1
    \<and> \<bar>p - b * (1 + rat_of_int (spec_seasonal_percent m) / 100)\<bar> \<le> 1 / 200 + (b + 1) / 2 ^ 49"
proof -
  define B :: rat where "B = 2 ^ 1000"
  have B: "1 \<le> B" "(2::rat) ^ 1010 = 1024 * B" "b \<le> B"
    unfolding B_def using big_powers assms(2) by simp_all
  obtain c where c: "fadd (Fin 1) (seasonal_factor_of m) = Fin c" "1 \<le> c" "c \<le> 2"
    "\<bar>c - (1 + rat_of_int (spec_seasonal_percent m) / 100)\<bar> \<le> 1 / 4503599627370496"
    using one_plus_factor_accuracy by blast
  define z where "z = b * c"
  define w where "w = b * (1 + rat_of_int (spec_seasonal_percent m) / 100)"
  have z0: "0 \<le> z" unfolding z_def using assms(1) c(2) by simp
  have z2: "z \<le> 2 * b" unfolding z_def using assms(1) c(3) by (simp add: mult_left_mono mult.commute)
  have "\<bar>z - w\<bar> = b * \<bar>c - (1 + rat_of_int (spec_seasonal_percent m) / 100)\<bar>"
    unfolding z_def w_def using assms(1) by (simp add: right_diff_distrib [symmetric] abs_mult)
  also have "\<dots> \<le> b * (1 / 4503599627370496)" using c(4) assms(1) by (rule mult_left_mono)
  finally have zw: "\<bar>z - w\<bar> \<le> b / 4503599627370496" by simp
  have "z \<le> 2 ^ 1010" unfolding B(2) using z2 B(1,3) assms(1) by linarith
  from round2_accuracy [OF z0 this] obtain k1 p where
    p: "round2 (to_float z) = Fin p" "cents k1 = Fin p" "0 \<le> p" "p \<le> 2 * z + 1"
      "\<bar>p - z\<bar> \<le> 1 / 200 + (z + 1) / 2 ^ 51"
    by blast
  have 1: "round2 (fmul (Fin b) (fadd (Fin 1) (seasonal_factor_of m))) = Fin p"
    using p(1) by (simp add: c(1) z_def)
  from p(4) z2 have 2: "p \<le> 4 * b + 1" by linarith
  from p(5) zw z2 z0 assms(1)
  have "\<bar>p - w\<bar> \<le> 1 / 200 + (b + 1) / 2 ^ 49"
    unfolding scale49 scale51 by linarith
  with 1 2 p(2,3) show ?thesis unfolding w_def by blast
qed

lemma booking_range:
  "2 * ((2::rat) ^ 900 * 2 ^ 32) + 1 \<le> 2 ^ 1010"
  "4 * ((2::rat) ^ 900 * 2 ^ 32) + 3 \<le> 32 * 2 ^ 1000"
  "(2::rat) ^ 900 * pow2 (- 1075) \<le> 1 / 9007199254740992"
  "(2::rat) ^ 32 < pow2 1023"
  by (simp_all add: pow2_def)

lemma subtotal_accuracy:
  assumes "0 \<le> dp" and "dp \<le> 2 ^ 900" and "1 \<le> n" and "n \<le> 2 ^ 32"
    and "float_of_int n = Inr days_f"
  shows "\<exists>s ks. round2 (fmul (Fin dp) days_f) = Fin s \<and> cents ks = Fin s
    \<and> 0 \<le> s \<and> s \<le> 32 * 2 ^ 1000
    \<and> \<bar>s - dp * rat_of_int n\<bar> \<le> 1 / 200 + (dp * rat_of_int n + 1) / 2 ^ 49"
proof -
  define N where "N = rat_of_int n"
  define t where "t = pow2 (- 1075)"
  define D :: rat where "D = 2 ^ 900"
  define M :: rat where "M = 2 ^ 32"
  have N: "1 \<le> N" "N \<le> M" unfolding N_def M_def using assms(3,4)
    by (simp_all add: of_int_le_numeral_power_cancel_iff)
  have D: "dp \<le> D" "0 \<le> D" unfolding D_def using assms(2) by simp_all
  have R: "2 * (D * M) + 1 \<le> 2 ^ 1010" "4 * (D * M) + 3 \<le> 32 * 2 ^ 1000"
    "D * t \<le> 1 / 9007199254740992" "M < pow2 1023"
    unfolding D_def M_def t_def using booking_range by simp_all
  have t0: "0 < t" unfolding t_def by (rule tiny_pos)
  from N R(4) have "0 \<le> N" "N < pow2 1023" by linarith+
  from to_float_error_nonneg [OF this] obtain n' where
    n': "to_float N = Fin n'" "0 \<le> n'" "n' \<le> N + N / 9007199254740992 + t"
      "N - N / 9007199254740992 - t \<le> n'"
    unfolding t_def by blast
  from assms(5) have df: "days_f = Fin n'"
    by (simp add: float_of_int_def n'(1) N_def [symmetric])
  define P where "P = dp * N"
  define z where "z = dp * n'"
  have P0: "0 \<le> P" unfolding P_def using assms(1) N(1) by simp
  have z0: "0 \<le> z" unfolding z_def using assms(1) n'(2) by simp
  have "P \<le> D * M" unfolding P_def using D N assms(1) by (intro mult_mono) simp_all
  with R(1,2) have P_hi: "2 * P + 1 \<le> 2 ^ 1010" "4 * P + 3 \<le> 32 * 2 ^ 1000" by linarith+
  have "dp * t \<le> D * t" using D(1) t0 by (intro mult_right_mono) simp_all
  with R(3) have dt: "dp * t \<le> 1 / 9007199254740992" by linarith
  have dt0: "0 \<le> dp * t" using assms(1) t0 by simp
  have "dp * n' \<le> dp * (N + N / 9007199254740992 + t)"
    using n'(3) assms(1) by (rule mult_left_mono)
  also have "\<dots> = dp * N + dp * N / 9007199254740992 + dp * t"
    by (simp add: algebra_simps)
  finally have z_up: "z \<le> P + P / 9007199254740992 + dp * t"
    unfolding z_def P_def .
  have "dp * N - dp * N / 9007199254740992 - dp * t = dp * (N - N / 9007199254740992 - t)"
    by (simp add: algebra_simps)
  also have "\<dots> \<le> dp * n'"
    using n'(4) assms(1) by (rule mult_left_mono)
  finally have z_lo: "P - P / 9007199254740992 - dp * t \<le> z"
    unfolding z_def P_def .
  have Pe: "0 \<le> P / 9007199254740992" "P / 9007199254740992 \<le> P" using P0 by simp_all
  from z_up dt Pe have z2: "z \<le> 2 * P + 1" by linarith
  with P_hi(1) have "z \<le> 2 ^ 1010" by linarith
  from round2_accuracy [OF z0 this] obtain ks s where
    s: "round2 (to_float z) = Fin s" "cents ks = Fin s" "0 \<le> s" "s \<le> 2 * z + 1"
      "\<bar>s - z\<bar> \<le> 1 / 200 + (z + 1) / 2 ^ 51"
    by blast
  have 1: "round2 (fmul (Fin dp) days_f) = Fin s" using s(1) by (simp add: df z_def)
  from s(4) z2 P_hi(2) have 2: "s \<le> 32 * 2 ^ 1000" by linarith
  from s(5) have s5: "s - z \<le> 1 / 200 + (z / 2251799813685248 + 1 / 2251799813685248)"
    "z - s \<le> 1 / 200 + (z / 2251799813685248 + 1 / 2251799813685248)"
    unfolding scale51 by linarith+
  have ze: "z / 2251799813685248 \<le> (2 * P + 1) / 2251799813685248"
    using z2 by (rule divide_right_mono) simp
  have "s - P \<le> 1 / 200 + (P / 562949953421312 + 1 / 562949953421312)"
    using s5(1) ze z_up dt dt0 Pe P0 by (simp add: add_divide_distrib)
  moreover have "P - s \<le> 1 / 200 + (P / 562949953421312 + 1 / 562949953421312)"
    using s5(2) ze z_lo dt dt0 Pe P0 by (simp add: add_divide_distrib)
  ultimately have "\<bar>s - P\<bar> \<le> 1 / 200 + (P + 1) / 2 ^ 49"
    unfolding scale49 by linarith
  with 1 2 s(2,3) show ?thesis unfolding P_def N_def by blast
qed

section \<open>Properties of the price breakdown\<close>

text \<open>
  C2, as stated, fails.  The base price 150.75 is a float; in June the product
  \<open>150.75 * 1.30\<close> is 195.975 exactly, which rounds to 195.98 under ties to even and
  under ties away from zero, and the breakdown has 195.97.
\<close>

theorem C2_counterexample:
  "calculate_price_breakdown 6 (Fin (603 / 4)) =
     Inr \<lparr>base_price = Fin (603 / 4), seasonal_percent = 30, price_before_tax = cents 19597,
          tax_amount = cents 1960, total_price = cents 21557\<rparr>
   \<and> spec_round2 round_half_even (603 / 4 * (1 + 30 / 100)) = 19598 / 100
   \<and> spec_round2 round_half_away (603 / 4 * (1 + 30 / 100)) = 19598 / 100
   \<and> cents 19597 \<noteq> cents 19598"
  by (simp add: price_eval cents_def spec_round2_def round_half_away_def)

text \<open>
  C2, amended.  For every base price \<open>b\<close> with \<open>0 \<le> b \<le> 2^1000\<close> and every month, the
  breakdown is returned and its price before tax \<open>p\<close>, tax amount \<open>t\<close> and total price \<open>u\<close>
  are each the float nearest to a whole number of cents; \<open>p\<close> is within half a cent plus
  \<open>(b + 1) / 2^49\<close> of \<open>b * (1 + surge)\<close>, where the surge is the month's percentage over
  100, \<open>t\<close> within half a cent plus \<open>(p + 1) / 2^49\<close> of \<open>p * 0.10\<close>, and \<open>u\<close> within half
  a cent plus \<open>(p + t + 1) / 2^49\<close> of \<open>p + t\<close>.  A base price of 100.00 in December gives
  140.00, 14.00 and 154.00.
\<close>

theorem C2_price_breakdown_accuracy:
  assumes "0 \<le> b" and "b \<le> 2 ^ 1000"
  shows "(\<exists>p t u k1 k2 k3.
       calculate_price_breakdown m (Fin b) =
         Inr \<lparr>base_price = Fin b, seasonal_percent = spec_seasonal_percent m,
              price_before_tax = Fin p, tax_amount = Fin t, total_price = Fin u\<rparr>
     \<and> cents k1 = Fin p \<and> cents k2 = Fin t \<and> cents k3 = Fin u
     \<and> \<bar>p - b * (1 + rat_of_int (spec_seasonal_percent m) / 100)\<bar> \<le> 1 / 200 + (b + 1) / 2 ^ 49
     \<and> \<bar>t - p * (10 / 100)\<bar> \<le> 1 / 200 + (p + 1) / 2 ^ 49
     \<and> \<bar>u - (p + t)\<bar> \<le> 1 / 200 + (p + t + 1) / 2 ^ 49)
   \<and> calculate_price_breakdown 12 (Fin 100) =
       Inr \<lparr>base_price = Fin 100, seasonal_percent = 40, price_before_tax = Fin 140,
            tax_amount = Fin 14, total_price = Fin 154\<rparr>"
proof
  from price_before_tax_accuracy [OF assms, of m] obtain p k1 where
    p: "round2 (fmul (Fin b) (fadd (Fin 1) (seasonal_factor_of m))) = Fin p"
      "cents k1 = Fin p" "0 \<le> p" "p \<le> 4 * b + 1"
      "\<bar>p - b * (1 + rat_of_int (spec_seasonal_percent m) / 100)\<bar> \<le> 1 / 200 + (b + 1) / 2 ^ 49"
    by blast
  from p(4) assms(2) big_powers(2) have "p \<le> 32 * 2 ^ 1000" by linarith
  from tax_total_accuracy [OF p(3) this] obtain t u k2 k3 where
    t: "round2 (fmul (Fin p) TAX_RATE) = Fin t" "round2 (fadd (Fin p) (Fin t)) = Fin u"
      "cents k2 = Fin t" "cents k3 = Fin u"
      "\<bar>t - p * (10 / 100)\<bar> \<le> 1 / 200 + (p + 1) / 2 ^ 49"
      "\<bar>u - (p + t)\<bar> \<le> 1 / 200 + (p + t + 1) / 2 ^ 49"
    by blast
  have "calculate_price_breakdown m (Fin b) =
         Inr \<lparr>base_price = Fin b, seasonal_percent = spec_seasonal_percent m,
              price_before_tax = Fin p, tax_amount = Fin t, total_price = Fin u\<rparr>"
    unfolding calculate_price_breakdown_eq p(1) t(1) t(2) by simp
  with p(2,5) t(3-6) show "\<exists>p t u k1 k2 k3.
       calculate_price_breakdown m (Fin b) =
         Inr \<lparr>base_price = Fin b, seasonal_percent = spec_seasonal_percent m,
              price_before_tax = Fin p, tax_amount = Fin t, total_price = Fin u\<rparr>
     \<and> cents k1 = Fin p \<and> cents k2 = Fin t \<and> cents k3 = Fin u
     \<and> \<bar>p - b * (1 + rat_of_int (spec_seasonal_percent m) / 100)\<bar> \<le> 1 / 200 + (b + 1) / 2 ^ 49
     \<and> \<bar>t - p * (10 / 100)\<bar> \<le> 1 / 200 + (p + 1) / 2 ^ 49
     \<and> \<bar>u - (p + t)\<bar> \<le> 1 / 200 + (p + t + 1) / 2 ^ 49"
    by blast
  show "calculate_price_breakdown 12 (Fin 100) =
       Inr \<lparr>base_price = Fin 100, seasonal_percent = 40, price_before_tax = Fin 140,
            tax_amount = Fin 14, total_price = Fin 154\<rparr>"
    by (simp add: price_eval)
qed

text \<open>The base price 150.75 in June: the price before tax is the float of 195.97, within
  the bound of the exact product 195.975.\<close>

theorem C2_price_breakdown_accuracy_witness:
  "(0 :: rat) \<le> 603 / 4 \<and> (603 / 4 :: rat) \<le> 2 ^ 1000
   \<and> map_sum id price_before_tax (calculate_price_breakdown 6 (Fin (603 / 4))) = Inr (cents 19597)
   \<and> \<bar>19597 / 100 - 603 / 4 * (1 + 30 / 100)\<bar> \<le> (1 / 200 :: rat)"
proof -
  have h: "(0 :: rat) \<le> 603 / 4" "(603 / 4 :: rat) \<le> 2 ^ 1000" by simp_all
  from C2_price_breakdown_accuracy [OF h, of 6] obtain p t u k1 where
    "calculate_price_breakdown 6 (Fin (603 / 4)) =
         Inr \<lparr>base_price = Fin (603 / 4), seasonal_percent = spec_seasonal_percent 6,
              price_before_tax = Fin p, tax_amount = Fin t, total_price = Fin u\<rparr>"
    and "cents k1 = Fin p"
    by blast
  moreover have "map_sum id price_before_tax (calculate_price_breakdown 6 (Fin (603 / 4)))
      = Inr (cents 19597)"
    by (simp add: price_eval cents_def)
  ultimately show ?thesis using h by simp
qed

text \<open>
  C3.  For every month the breakdown is returned, its seasonal percentage is 40 in
  months 12 and 1, 30 in months 6, 7 and 8, 20 in months 3, 4 and 5 and 0 in every other
  month, and this percentage over 100 is the surge applied to the base price.
\<close>

theorem C3_seasonal_table:
  "\<exists>p. calculate_price_breakdown m b = Inr p
     \<and> seasonal_percent p =
         (if m = 12 \<or> m = 1 then 40
          else if m = 6 \<or> m = 7 \<or> m = 8 then 30
          else if m = 3 \<or> m = 4 \<or> m = 5 then 20
          else 0)
     \<and> price_before_tax p =
         round2 (fmul b (fadd (Fin 1) (to_float (rat_of_int (seasonal_percent p) / 100))))"
  unfolding calculate_price_breakdown_eq seasonal_factor_of_percent
  by (simp add: spec_seasonal_percent_def)

text \<open>The table over the twelve months of the year.\<close>

theorem C3_seasonal_table_witness:
  "map (\<lambda>m. map_sum id seasonal_percent (calculate_price_breakdown m (Fin 100)))
     [1, 2, 3, 4, 5, 6, 7, 8, 9, 10, 11, 12]
   = map Inr [40, 0, 20, 20, 20, 30, 30, 30, 0, 0, 0, 40]"
  using C3_seasonal_table [of 1 "Fin 100"] C3_seasonal_table [of 2 "Fin 100"]
    C3_seasonal_table [of 3 "Fin 100"] C3_seasonal_table [of 4 "Fin 100"]
    C3_seasonal_table [of 5 "Fin 100"] C3_seasonal_table [of 6 "Fin 100"]
    C3_seasonal_table [of 7 "Fin 100"] C3_seasonal_table [of 8 "Fin 100"]
    C3_seasonal_table [of 9 "Fin 100"] C3_seasonal_table [of 10 "Fin 100"]
    C3_seasonal_table [of 11 "Fin 100"] C3_seasonal_table [of 12 "Fin 100"]
  by auto

text \<open>
  C9, as stated, fails: in December a base price of zero does not give the all-zero
  breakdown, since the seasonal percentage is 40.
\<close>

theorem C9_counterexample:
  "calculate_price_breakdown 12 (Fin 0) \<noteq>
     Inr \<lparr>base_price = Fin 0, seasonal_percent = 0, price_before_tax = Fin 0,
          tax_amount = Fin 0, total_price = Fin 0\<rparr>"
  by (simp add: calculate_price_breakdown_eq spec_seasonal_percent_def)

text \<open>
  C9, amended.  For every month, a base price of zero gives a breakdown whose base
  price, price before tax, tax amount and total price are zero; its seasonal percentage
  is that of the month.
\<close>

theorem C9_zero_base_price:
  "calculate_price_breakdown m (Fin 0) =
     Inr \<lparr>base_price = Fin 0, seasonal_percent = spec_seasonal_percent m,
          price_before_tax = Fin 0, tax_amount = Fin 0, total_price = Fin 0\<rparr>"
proof -
  obtain c where c: "fadd (Fin 1) (seasonal_factor_of m) = Fin c"
    using one_plus_factor by blast
  show ?thesis
    unfolding calculate_price_breakdown_eq c TAX_RATE_eq
    by (simp add: round_half_even_def)
qed

text \<open>In September the percentage is zero too.\<close>

theorem C9_zero_base_price_witness:
  "calculate_price_breakdown 9 (Fin 0) =
     Inr \<lparr>base_price = Fin 0, seasonal_percent = 0, price_before_tax = Fin 0,
          tax_amount = Fin 0, total_price = Fin 0\<rparr>"
  using C9_zero_base_price [of 9] by (simp add: spec_seasonal_percent_def)

text \<open>
  C10, as stated, fails: the base price \<open>-1/1024\<close> is negative, and in September its
  price before tax, tax amount and total price are zero, not negative.
\<close>

theorem C10_counterexample:
  "flt (Fin (- (1 / 1024))) (Fin 0)
   \<and> calculate_price_breakdown 9 (Fin (- (1 / 1024))) =
       Inr \<lparr>base_price = Fin (- (1 / 1024)), seasonal_percent = 0, price_before_tax = Fin 0,
            tax_amount = Fin 0, total_price = Fin 0\<rparr>
   \<and> \<not> flt (Fin 0) (Fin 0)"
  by (simp add: price_eval)

text \<open>
  C10, amended.  For every negative base price and every month, the breakdown is
  returned without an error, \<open>calculate_dynamic_price\<close> returns its price before tax,
  and the price before tax, the tax amount and the total price are negative or zero;
  all three are negative when the base price is at most \<open>-1\<close>.  In a month without
  surge the price before tax of a float \<open>b\<close> is \<open>round(b, 2)\<close>.
\<close>

theorem C10_negative_base_price:
  assumes "flt b (Fin 0)"
  shows "\<exists>p. calculate_price_breakdown m b = Inr p
           \<and> calculate_dynamic_price m b = Inr (price_before_tax p)
           \<and> fle (price_before_tax p) (Fin 0)
           \<and> fle (tax_amount p) (Fin 0)
           \<and> fle (total_price p) (Fin 0)
           \<and> (fle b (Fin (- 1)) \<longrightarrow>
                flt (price_before_tax p) (Fin 0) \<and> flt (tax_amount p) (Fin 0)
                \<and> flt (total_price p) (Fin 0))
           \<and> (spec_seasonal_percent m = 0 \<and> is_float b \<longrightarrow> price_before_tax p = round2 b)"
proof -
  obtain c where c: "fadd (Fin 1) (seasonal_factor_of m) = Fin c" "1 \<le> c"
    using one_plus_factor by blast
  let ?pbt = "round2 (fmul b (Fin c))"
  let ?tax = "round2 (fmul ?pbt TAX_RATE)"
  let ?total = "round2 (fadd ?pbt ?tax)"
  from assms have b: "fle b (Fin 0)" by (rule flt_imp_fle)
  from c have "0 < c" by simp
  with b have pbt: "fle ?pbt (Fin 0)" by (simp add: round2_nonpos fmul_nonpos)
  then have tax: "fle ?tax (Fin 0)"
    unfolding TAX_RATE_eq by (simp add: round2_nonpos fmul_nonpos)
  from pbt tax have total: "fle ?total (Fin 0)"
    by (simp add: round2_nonpos fadd_nonpos)
  have strict: "flt ?pbt (Fin 0) \<and> flt ?tax (Fin 0) \<and> flt ?total (Fin 0)"
    if "fle b (Fin (- 1))"
  proof -
    from that c(2) have 1: "fle ?pbt (Fin (- 1))"
      by (simp add: round2_le_neg1 fmul_le_neg1)
    then have 2: "flt ?tax (Fin 0)" by (rule tax_negative)
    then have "fle ?tax (Fin 0)" by (rule flt_imp_fle)
    with 1 have "fle ?total (Fin (- 1))"
      by (simp add: round2_le_neg1 fadd_le_neg1)
    then have "flt ?total (Fin 0)" by (rule fle_neg1_imp_flt)
    moreover from 1 have "flt ?pbt (Fin 0)" by (rule fle_neg1_imp_flt)
    ultimately show ?thesis using 2 by simp
  qed
  have off: "?pbt = round2 b" if "spec_seasonal_percent m = 0" "is_float b"
  proof -
    from that(1) c(1) have "c = 1"
      by (simp add: off_season_factor one_plus_surge del: fadd.simps)
    with that(2) show ?thesis by (simp add: fmul_one)
  qed
  show ?thesis
    unfolding calculate_price_breakdown_eq calculate_dynamic_price_eq c
    using pbt tax total strict off by simp
qed

text \<open>A base price of \<open>-100.00\<close> in September: the displayed price is \<open>-100.00\<close>.\<close>

theorem C10_negative_base_price_witness:
  "flt (Fin (- 100)) (Fin 0) \<and> fle (Fin (- 100)) (Fin (- 1)) \<and> is_float (Fin (- 100))
   \<and> spec_seasonal_percent 9 = 0
   \<and> calculate_dynamic_price 9 (Fin (- 100)) = Inr (Fin (- 100))
   \<and> flt (Fin (- 100)) (Fin 0)"
proof -
  have h: "flt (Fin (- 100)) (Fin 0)" by simp
  have f: "is_float (Fin (- 100))" by (simp add: float_eval)
  have s: "spec_seasonal_percent 9 = 0" by (simp add: spec_seasonal_percent_def)
  from C10_negative_base_price [OF h, of 9] s f
  have "calculate_dynamic_price 9 (Fin (- 100)) = Inr (round2 (Fin (- 100)))"
    by auto
  then have "calculate_dynamic_price 9 (Fin (- 100)) = Inr (Fin (- 100))"
    by (simp add: float_eval)
  with h f s show ?thesis by simp
qed

section \<open>Properties of booking\<close>

lemmas parse_eval = example_strptime_def example_float_of_str_def number_of_def digit_of_def
  date_ordinal_def days_in_month_def is_leap_def upt_rec

lemma get_room_id: "get_room d room_id = Some room \<Longrightarrow> Room_id room = room_id"
  by (auto simp: get_room_def find_Some_iff)

lemma find_map_update:
  assumes "find (\<lambda>r. key r = k) xs = Some x" and "\<And>r. key (upd r) = key r"
  shows "find (\<lambda>r. key r = k) (map (\<lambda>r. if key r = k then upd r else r) xs) = Some (upd x)"
  using assms by (induction xs) (auto split: if_splits)

lemma book_unavailable:
  assumes "get_room d room_id = Some room" and "\<not> Room_is_available room"
  shows "book e user meth f room_id d =
    (case user of
       None \<Rightarrow> (Redirect ''Login required to book'' ''login'', d)
     | Some u \<Rightarrow> if User_role u = ''staff''
         then (Redirect ''Admins cannot book rooms'' ''admin_dashboard'', d)
         else (Redirect ''Room is no longer available'' ''search'', d))"
  using assms by (simp add: book_def split: option.splits)

lemma book_success:
  assumes "book e user meth f room_id d = (Redirect_invoice msg k, d')"
  shows "\<exists>u room check_in check_out payment_method ci co days_f.
      user = Some u \<and> User_role u \<noteq> ''staff'' \<and> meth = POST
    \<and> get_room d room_id = Some room \<and> Room_is_available room
    \<and> f ''check_in'' = Some check_in \<and> f ''check_out'' = Some check_out
    \<and> f ''payment_method'' = Some payment_method
    \<and> strptime e check_in = Some ci \<and> strptime e check_out = Some co
    \<and> float_of_int (if co - ci \<le> 0 then 1 else co - ci) = Inr days_f
    \<and> msg = ''Room booked successfully''
    \<and> k = next_id (map Res_id (reservations d))
    \<and> d' = d\<lparr>rooms := map (\<lambda>r. if Room_id r = Room_id room
                                then r\<lparr>Room_is_available := False\<rparr> else r) (rooms d),
            reservations := reservations d @
              [\<lparr>Res_id = next_id (map Res_id (reservations d)),
                Res_user_id = User_id u,
                Res_room_id = Room_id room,
                Res_check_in = check_in,
                Res_check_out = check_out,
                Res_daily_price =
                  round2 (fmul (Room_base_price room) (fadd (Fin 1) (seasonal_factor_of (now_month e)))),
                Res_days = (if co - ci \<le> 0 then 1 else co - ci),
                Res_base_price =
                  round2 (fmul (round2 (fmul (Room_base_price room)
                     (fadd (Fin 1) (seasonal_factor_of (now_month e))))) days_f),
                Res_tax_amount =
                  round2 (fmul (round2 (fmul (round2 (fmul (Room_base_price room)
                     (fadd (Fin 1) (seasonal_factor_of (now_month e))))) days_f)) TAX_RATE),
                Res_total_price =
                  round2 (fadd (round2 (fmul (round2 (fmul (Room_base_price room)
                     (fadd (Fin 1) (seasonal_factor_of (now_month e))))) days_f))
                   (round2 (fmul (round2 (fmul (round2 (fmul (Room_base_price room)
                     (fadd (Fin 1) (seasonal_factor_of (now_month e))))) days_f)) TAX_RATE))),
                Res_status = ''confirmed'',
                Res_paid = (payment_method \<noteq> [])\<rparr>]\<rparr>"
proof -
  from assms obtain u where u: "user = Some u" "User_role u \<noteq> ''staff''"
    by (auto simp: book_def split: option.splits if_splits)
  with assms obtain room where room: "get_room d room_id = Some room" "Room_is_available room"
    by (auto simp: book_def split: option.splits if_splits)
  with assms u have post: "meth = POST" and bp: "book_post e u f room d = (Redirect_invoice msg k, d')"
    by (auto simp: book_def calculate_dynamic_price_eq split: if_splits)
  from bp obtain check_in check_out payment_method where
    form: "f ''check_in'' = Some check_in" "f ''check_out'' = Some check_out"
      "f ''payment_method'' = Some payment_method"
    by (auto simp: book_post_def split: option.splits)
  with bp obtain ci co where
    dates: "strptime e check_in = Some ci" "strptime e check_out = Some co"
    by (auto simp: book_post_def split: option.splits)
  with bp form obtain days_f where
    days: "float_of_int (if co - ci \<le> 0 then 1 else co - ci) = Inr days_f"
    by (auto simp: book_post_def Let_def calculate_price_breakdown_eq split: sum.splits)
  from bp form dates days show ?thesis
    using u room post
    by (auto simp: book_post_def Let_def calculate_price_breakdown_eq)
qed


lemmas example_eval = example_env_def example_db_def deluxe_room_def single_room_def
  taken_room_def guest_def staff_def booking_form_def get_room_def get_reservation_def
  next_id_def float_of_int_def is_staff_def

lemma example_booking:
  "book example_env (Some guest) POST booking_form 1 example_db =
     (Redirect_invoice ''Room booked successfully'' 1, booked_db)"
  by (simp add: book_def book_post_def booked_db_def example_eval parse_eval price_eval)

text \<open>
  C1, as stated, fails.  A room of 10.75 booked for one night in September has the
  subtotal 10.75; \<open>10.75 * 0.10\<close> is 1.075 exactly, which rounds to 1.08 under ties to
  even and under ties away from zero, and the reservation has the tax 1.07.
\<close>

theorem C1_counterexample:
  "fst (book september_env (Some guest) POST one_night_form 4 budget_db) =
     Redirect_invoice ''Room booked successfully'' 1
   \<and> map Res_days (reservations (snd (book september_env (Some guest) POST one_night_form 4 budget_db)))
       = [1]
   \<and> map Res_base_price
        (reservations (snd (book september_env (Some guest) POST one_night_form 4 budget_db)))
       = [Fin (43 / 4)]
   \<and> map Res_tax_amount
        (reservations (snd (book september_env (Some guest) POST one_night_form 4 budget_db)))
       = [cents 107]
   \<and> spec_round2 round_half_even (43 / 4 * (10 / 100)) = 108 / 100
   \<and> spec_round2 round_half_away (43 / 4 * (10 / 100)) = 108 / 100
   \<and> cents 107 \<noteq> cents 108"
  by (simp add: book_def book_post_def september_env_def budget_db_def budget_room_def
      one_night_form_def example_eval parse_eval price_eval cents_def spec_round2_def
      round_half_away_def)

text \<open>
  C1, amended.  Every successful booking appends one reservation whose nights are the
  day difference of the two dates, 1 when that difference is not positive, and whose
  daily price is the price before tax of the breakdown of the room's base price; the
  room was available and is unavailable in the same new state.  When the daily price
  \<open>dp\<close> is a float with \<open>0 \<le> dp \<le> 2^900\<close> and the nights \<open>n\<close> are at most \<open>2^32\<close>, the
  subtotal \<open>s\<close>, the tax \<open>t\<close> and the total \<open>u\<close> are each the float nearest to a whole
  number of cents, \<open>s\<close> within half a cent plus \<open>(dp * n + 1) / 2^49\<close> of \<open>dp * n\<close>, \<open>t\<close>
  within half a cent plus \<open>(s + 1) / 2^49\<close> of \<open>s * 0.10\<close>, and \<open>u\<close> within half a cent plus
  \<open>(s + t + 1) / 2^49\<close> of \<open>s + t\<close>.
\<close>

theorem C1_booking_invariant:
  assumes "book e user meth f room_id d = (Redirect_invoice msg k, d')"
  shows "\<exists>room check_in check_out ci co pricing res.
       get_room d room_id = Some room \<and> Room_is_available room
     \<and> f ''check_in'' = Some check_in \<and> strptime e check_in = Some ci
     \<and> f ''check_out'' = Some check_out \<and> strptime e check_out = Some co
     \<and> calculate_price_breakdown (now_month e) (Room_base_price room) = Inr pricing
     \<and> reservations d' = reservations d @ [res]
     \<and> Res_id res = k \<and> Res_room_id res = room_id
     \<and> Res_days res = (if co - ci \<le> 0 then 1 else co - ci)
     \<and> Res_daily_price res = price_before_tax pricing
     \<and> (\<forall>dp. Res_daily_price res = Fin dp \<and> 0 \<le> dp \<and> dp \<le> 2 ^ 900 \<and> Res_days res \<le> 2 ^ 32 \<longrightarrow>
           (\<exists>s t u ks kt ku.
               Res_base_price res = Fin s \<and> Res_tax_amount res = Fin t
             \<and> Res_total_price res = Fin u
             \<and> cents ks = Fin s \<and> cents kt = Fin t \<and> cents ku = Fin u
             \<and> \<bar>s - dp * rat_of_int (Res_days res)\<bar>
                 \<le> 1 / 200 + (dp * rat_of_int (Res_days res) + 1) / 2 ^ 49
             \<and> \<bar>t - s * (10 / 100)\<bar> \<le> 1 / 200 + (s + 1) / 2 ^ 49
             \<and> \<bar>u - (s + t)\<bar> \<le> 1 / 200 + (s + t + 1) / 2 ^ 49))
     \<and> get_room d' room_id = Some (room\<lparr>Room_is_available := False\<rparr>)
     \<and> rooms d' = map (\<lambda>r. if Room_id r = room_id
                              then r\<lparr>Room_is_available := False\<rparr> else r) (rooms d)
     \<and> payments d' = payments d"
proof -
  from book_success [OF assms] obtain u room check_in check_out payment_method ci co days_f
    where u: "user = Some u"
      and pm: "f ''payment_method'' = Some payment_method"
      and room: "get_room d room_id = Some room" "Room_is_available room"
      and form: "f ''check_in'' = Some check_in" "f ''check_out'' = Some check_out"
      and dates: "strptime e check_in = Some ci" "strptime e check_out = Some co"
      and days: "float_of_int (if co - ci \<le> 0 then 1 else co - ci) = Inr days_f"
      and k: "k = next_id (map Res_id (reservations d))"
      and d': "d' = d\<lparr>rooms := map (\<lambda>r. if Room_id r = Room_id room
                                then r\<lparr>Room_is_available := False\<rparr> else r) (rooms d),
            reservations := reservations d @
              [\<lparr>Res_id = next_id (map Res_id (reservations d)),
                Res_user_id = User_id u,
                Res_room_id = Room_id room,
                Res_check_in = check_in,
                Res_check_out = check_out,
                Res_daily_price =
                  round2 (fmul (Room_base_price room) (fadd (Fin 1) (seasonal_factor_of (now_month e)))),
                Res_days = (if co - ci \<le> 0 then 1 else co - ci),
                Res_base_price =
                  round2 (fmul (round2 (fmul (Room_base_price room)
                     (fadd (Fin 1) (seasonal_factor_of (now_month e))))) days_f),
                Res_tax_amount =
                  round2 (fmul (round2 (fmul (round2 (fmul (Room_base_price room)
                     (fadd (Fin 1) (seasonal_factor_of (now_month e))))) days_f)) TAX_RATE),
                Res_total_price =
                  round2 (fadd (round2 (fmul (round2 (fmul (Room_base_price room)
                     (fadd (Fin 1) (seasonal_factor_of (now_month e))))) days_f))
                   (round2 (fmul (round2 (fmul (round2 (fmul (Room_base_price room)
                     (fadd (Fin 1) (seasonal_factor_of (now_month e))))) days_f)) TAX_RATE))),
                Res_status = ''confirmed'',
                Res_paid = (payment_method \<noteq> [])\<rparr>]\<rparr>"
    by blast
  let ?daily = "round2 (fmul (Room_base_price room) (fadd (Fin 1) (seasonal_factor_of (now_month e))))"
  let ?n = "if co - ci \<le> 0 then 1 else co - ci"
  define res where "res =
     \<lparr>Res_id = next_id (map Res_id (reservations d)),
      Res_user_id = User_id u,
      Res_room_id = Room_id room,
      Res_check_in = check_in,
      Res_check_out = check_out,
      Res_daily_price = ?daily,
      Res_days = ?n,
      Res_base_price = round2 (fmul ?daily days_f),
      Res_tax_amount = round2 (fmul (round2 (fmul ?daily days_f)) TAX_RATE),
      Res_total_price =
        round2 (fadd (round2 (fmul ?daily days_f))
          (round2 (fmul (round2 (fmul ?daily days_f)) TAX_RATE))),
      Res_status = ''confirmed'',
      Res_paid = (payment_method \<noteq> [])\<rparr>"
  define pricing where "pricing =
     \<lparr>base_price = Room_base_price room,
      seasonal_percent = spec_seasonal_percent (now_month e),
      price_before_tax = ?daily,
      tax_amount = round2 (fmul ?daily TAX_RATE),
      total_price = round2 (fadd ?daily (round2 (fmul ?daily TAX_RATE)))\<rparr>"
  from room(1) have rid: "Room_id room = room_id" by (rule get_room_id)
  have "find (\<lambda>r. Room_id r = room_id)
          (map (\<lambda>r. if Room_id r = room_id then r\<lparr>Room_is_available := False\<rparr> else r) (rooms d))
        = Some (room\<lparr>Room_is_available := False\<rparr>)"
    using room(1) unfolding get_room_def by (rule find_map_update) simp
  then have after: "get_room d' room_id = Some (room\<lparr>Room_is_available := False\<rparr>)"
    by (simp add: get_room_def d' rid)
  have pricing: "calculate_price_breakdown (now_month e) (Room_base_price room) = Inr pricing"
    by (simp add: calculate_price_breakdown_eq pricing_def)
  have appended: "reservations d' = reservations d @ [res]" by (simp add: d' res_def)
  have ids: "Res_id res = k" "Res_room_id res = room_id" by (simp_all add: res_def k rid)
  have nights: "Res_days res = (if co - ci \<le> 0 then 1 else co - ci)" by (simp add: res_def)
  have daily: "Res_daily_price res = price_before_tax pricing" by (simp add: res_def pricing_def)
  have amounts: "\<exists>s t u ks kt ku.
               Res_base_price res = Fin s \<and> Res_tax_amount res = Fin t
             \<and> Res_total_price res = Fin u
             \<and> cents ks = Fin s \<and> cents kt = Fin t \<and> cents ku = Fin u
             \<and> \<bar>s - dp * rat_of_int (Res_days res)\<bar>
                 \<le> 1 / 200 + (dp * rat_of_int (Res_days res) + 1) / 2 ^ 49
             \<and> \<bar>t - s * (10 / 100)\<bar> \<le> 1 / 200 + (s + 1) / 2 ^ 49
             \<and> \<bar>u - (s + t)\<bar> \<le> 1 / 200 + (s + t + 1) / 2 ^ 49"
    if dp: "Res_daily_price res = Fin dp" "0 \<le> dp" "dp \<le> 2 ^ 900" "Res_days res \<le> 2 ^ 32" for dp
  proof -
    from dp(1) have dpe: "?daily = Fin dp" by (simp add: res_def)
    have n1: "1 \<le> ?n" by simp
    from dp(4) have n2: "?n \<le> 2 ^ 32" by (simp add: res_def)
    from subtotal_accuracy [OF dp(2,3) n1 n2 days] obtain s ks where
      s: "round2 (fmul (Fin dp) days_f) = Fin s" "cents ks = Fin s" "0 \<le> s" "s \<le> 32 * 2 ^ 1000"
        "\<bar>s - dp * rat_of_int ?n\<bar> \<le> 1 / 200 + (dp * rat_of_int ?n + 1) / 2 ^ 49"
      by blast
    from tax_total_accuracy [OF s(3,4)] obtain t u kt ku where
      t: "round2 (fmul (Fin s) TAX_RATE) = Fin t" "round2 (fadd (Fin s) (Fin t)) = Fin u"
        "cents kt = Fin t" "cents ku = Fin u"
        "\<bar>t - s * (10 / 100)\<bar> \<le> 1 / 200 + (s + 1) / 2 ^ 49"
        "\<bar>u - (s + t)\<bar> \<le> 1 / 200 + (s + t + 1) / 2 ^ 49"
      by blast
    have 1: "Res_base_price res = Fin s" unfolding res_def dpe using s(1) by simp
    have 2: "Res_tax_amount res = Fin t" unfolding res_def dpe s(1) using t(1) by simp
    have 3: "Res_total_price res = Fin u" unfolding res_def dpe s(1) t(1) using t(2) by simp
    have 4: "\<bar>s - dp * rat_of_int (Res_days res)\<bar>
                 \<le> 1 / 200 + (dp * rat_of_int (Res_days res) + 1) / 2 ^ 49"
      unfolding nights by (rule s(5))
    from 1 2 3 4 s(2) t(3-6) show ?thesis by blast
  qed
  have rooms': "rooms d' = map (\<lambda>r. if Room_id r = room_id
                              then r\<lparr>Room_is_available := False\<rparr> else r) (rooms d)"
    by (simp add: d' rid)
  have pays: "payments d' = payments d" by (simp add: d')
  from room form dates pricing appended ids nights daily amounts after rooms' pays
  show ?thesis by blast
qed

text \<open>The booking of a room of 100.00 in December from 2024-12-01 to 2024-12-04: three
  nights, 420.00, 42.00 and 462.00, and the room is taken.\<close>

theorem C1_booking_invariant_witness:
  "fst (book example_env (Some guest) POST booking_form 1 example_db) =
     Redirect_invoice ''Room booked successfully'' 1
   \<and> map (\<lambda>r. (Res_days r, Res_daily_price r, Res_base_price r, Res_tax_amount r,
                Res_total_price r))
        (reservations (snd (book example_env (Some guest) POST booking_form 1 example_db)))
       = [(3, Fin 140, Fin 420, Fin 42, Fin 462)]
   \<and> cents 42000 = Fin 420 \<and> cents 4200 = Fin 42 \<and> cents 46200 = Fin 462
   \<and> map_option Room_is_available
        (get_room (snd (book example_env (Some guest) POST booking_form 1 example_db)) 1)
       = Some False"
proof -
  let ?d' = "snd (book example_env (Some guest) POST booking_form 1 example_db)"
  have h: "book example_env (Some guest) POST booking_form 1 example_db =
      (Redirect_invoice ''Room booked successfully'' 1, ?d')"
    unfolding example_booking by simp
  from C1_booking_invariant [OF h] obtain res
    where "reservations ?d' = reservations example_db @ [res]"
    by blast
  moreover have "cents 42000 = Fin 420" "cents 4200 = Fin 42" "cents 46200 = Fin 462"
    by (simp_all add: cents_def float_eval)
  ultimately show ?thesis unfolding example_booking by (auto simp: booked_db_def example_eval)
qed

text \<open>
  C6.  The reservation of a successful booking has status \<open>confirmed\<close>, and its paid
  flag says whether the payment method of the form is a non-empty string; no payment
  is recorded.
\<close>

theorem C6_confirmed_and_paid:
  assumes "book e user meth f room_id d = (Redirect_invoice msg k, d')"
  shows "\<exists>payment_method res.
       f ''payment_method'' = Some payment_method
     \<and> reservations d' = reservations d @ [res]
     \<and> Res_id res = k
     \<and> Res_status res = ''confirmed''
     \<and> Res_paid res = (payment_method \<noteq> [])
     \<and> payments d' = payments d"
  using book_success [OF assms] by auto

text \<open>A booking with an empty payment method: confirmed, not paid.\<close>

theorem C6_confirmed_and_paid_witness:
  "map (\<lambda>r. (Res_status r, Res_paid r))
     (reservations (snd (book example_env (Some guest) POST
        (booking_form(''payment_method'' \<mapsto> [])) 2 example_db)))
   = [(''confirmed'', False)]"
proof -
  let ?b = "book example_env (Some guest) POST (booking_form(''payment_method'' \<mapsto> [])) 2 example_db"
  have "fst ?b = Redirect_invoice ''Room booked successfully'' 1"
    by (simp add: book_def book_post_def example_eval parse_eval price_eval)
  then have h: "?b = (Redirect_invoice ''Room booked successfully'' 1, snd ?b)"
    by (simp add: prod_eq_iff)
  from C6_confirmed_and_paid [OF h] show ?thesis
    by (auto simp: example_eval)
qed

text \<open>
  C4.  Booking a room whose availability flag is false changes nothing in the
  database and never answers with a booking; for a logged-in guest the answer is the
  message that the room is no longer available.
\<close>

theorem C4_unavailable_room_rejected:
  assumes "get_room d room_id = Some room" and "\<not> Room_is_available room"
  shows "snd (book e user meth f room_id d) = d
     \<and> (\<forall>msg k. fst (book e user meth f room_id d) \<noteq> Redirect_invoice msg k)
     \<and> (\<forall>u. user = Some u \<and> User_role u \<noteq> ''staff'' \<longrightarrow>
           fst (book e user meth f room_id d) = Redirect ''Room is no longer available'' ''search'')"
  unfolding book_unavailable [OF assms] by (auto split: option.splits)

theorem C4_unavailable_room_rejected_witness:
  "get_room example_db 3 = Some taken_room \<and> \<not> Room_is_available taken_room
   \<and> book example_env (Some guest) POST booking_form 3 example_db =
       (Redirect ''Room is no longer available'' ''search'', example_db)"
proof -
  have 1: "get_room example_db 3 = Some taken_room" by (simp add: example_eval)
  have 2: "\<not> Room_is_available taken_room" by (simp add: taken_room_def)
  from C4_unavailable_room_rejected [OF 1 2, of example_env "Some guest" POST booking_form]
  have "book example_env (Some guest) POST booking_form 3 example_db =
       (Redirect ''Room is no longer available'' ''search'', example_db)"
    by (simp add: prod_eq_iff guest_def)
  with 1 2 show ?thesis by simp
qed

section \<open>Properties of room deletion\<close>

lemma can_delete_room_iff:
  "can_delete_room d room \<longleftrightarrow>
     \<not> (\<exists>r \<in> set (reservations d). Res_room_id r = Room_id room \<and> Res_status r = ''confirmed'')"
  by (auto simp: can_delete_room_def active_reservation_def find_None_iff)

lemma find_filter_neq: "find (\<lambda>r. key r = k) (filter (\<lambda>r. key r \<noteq> k) xs) = None"
  by (simp add: find_None_iff)

text \<open>
  C7.  For a staff user and a stored room, the deletion guard is false exactly when
  some reservation of the room has status \<open>confirmed\<close>; then \<open>delete_room\<close> leaves the
  database as it is, and otherwise it removes the room.
\<close>

theorem C7_deletion_guard:
  assumes "is_staff user" and "get_room d room_id = Some room"
  shows "(\<not> can_delete_room d room \<longleftrightarrow>
            (\<exists>r \<in> set (reservations d). Res_room_id r = room_id \<and> Res_status r = ''confirmed''))
     \<and> (\<not> can_delete_room d room \<longrightarrow>
          delete_room user room_id d =
            (Redirect ''Cannot delete a room with active reservations'' ''admin_dashboard'', d))
     \<and> (can_delete_room d room \<longrightarrow>
          delete_room user room_id d =
            (Redirect ''Room deleted successfully'' ''admin_dashboard'',
             d\<lparr>rooms := filter (\<lambda>r. Room_id r \<noteq> room_id) (rooms d)\<rparr>)
          \<and> get_room (snd (delete_room user room_id d)) room_id = None)"
proof -
  from assms(2) have rid: "Room_id room = room_id" by (rule get_room_id)
  have 1: "\<not> can_delete_room d room \<longleftrightarrow>
            (\<exists>r \<in> set (reservations d). Res_room_id r = room_id \<and> Res_status r = ''confirmed'')"
    by (simp add: can_delete_room_iff rid)
  have 2: "delete_room user room_id d =
            (Redirect ''Cannot delete a room with active reservations'' ''admin_dashboard'', d)"
    if "\<not> can_delete_room d room"
    using that assms by (auto simp: delete_room_def can_delete_room_def)
  have 3: "delete_room user room_id d =
            (Redirect ''Room deleted successfully'' ''admin_dashboard'',
             d\<lparr>rooms := filter (\<lambda>r. Room_id r \<noteq> room_id) (rooms d)\<rparr>)"
    if "can_delete_room d room"
    using that assms by (simp add: delete_room_def can_delete_room_def rid)
  have 4: "get_room (snd (delete_room user room_id d)) room_id = None"
    if "can_delete_room d room"
    unfolding 3 [OF that] by (simp add: get_room_def find_filter_neq)
  from 1 2 3 4 show ?thesis by blast
qed

theorem C7_deletion_guard_witness:
  "is_staff (Some staff)
   \<and> get_room booked_db 1 = Some (deluxe_room\<lparr>Room_is_available := False\<rparr>)
   \<and> get_room booked_db 2 = Some single_room
   \<and> delete_room (Some staff) 1 booked_db =
       (Redirect ''Cannot delete a room with active reservations'' ''admin_dashboard'', booked_db)
   \<and> map Room_id (rooms (snd (delete_room (Some staff) 2 booked_db))) = [1, 3]"
proof -
  have s: "is_staff (Some staff)" by (simp add: is_staff_def staff_def)
  have r1: "get_room booked_db 1 = Some (deluxe_room\<lparr>Room_is_available := False\<rparr>)"
    by (simp add: booked_db_def example_eval)
  have r2: "get_room booked_db 2 = Some single_room"
    by (simp add: booked_db_def example_eval)
  have c1: "\<not> can_delete_room booked_db (deluxe_room\<lparr>Room_is_available := False\<rparr>)"
    by (simp add: can_delete_room_def active_reservation_def booked_db_def deluxe_room_def)
  have c2: "can_delete_room booked_db single_room"
    by (simp add: can_delete_room_def active_reservation_def booked_db_def single_room_def)
  from C7_deletion_guard [OF s r1] c1
  have d1: "delete_room (Some staff) 1 booked_db =
       (Redirect ''Cannot delete a room with active reservations'' ''admin_dashboard'', booked_db)"
    by blast
  from C7_deletion_guard [OF s r2] c2
  have "delete_room (Some staff) 2 booked_db =
       (Redirect ''Room deleted successfully'' ''admin_dashboard'',
         booked_db\<lparr>rooms := filter (\<lambda>r. Room_id r \<noteq> 2) (rooms booked_db)\<rparr>)"
    by blast
  then have d2: "map Room_id (rooms (snd (delete_room (Some staff) 2 booked_db))) = [1, 3]"
    by (simp add: booked_db_def example_eval)
  from s r1 r2 d1 d2 show ?thesis by simp
qed

section \<open>Properties of payment\<close>

lemma get_reservation_id: "get_reservation d rid = Some resv \<Longrightarrow> Res_id resv = rid"
  by (auto simp: get_reservation_def find_Some_iff)

lemma find_map_paid:
  "find (\<lambda>r. Res_id r = i) (map (\<lambda>r. if Res_id r = j then r\<lparr>Res_paid := True\<rparr> else r) xs)
   = map_option (\<lambda>r. if Res_id r = j then r\<lparr>Res_paid := True\<rparr> else r)
       (find (\<lambda>r. Res_id r = i) xs)"
  by (induction xs) auto

lemma find_append_Some: "find P xs = Some x \<Longrightarrow> find P (xs @ ys) = Some x"
  by (induction xs) (auto split: if_splits)

lemma paid_flag_cong: "reservations d' = reservations d \<Longrightarrow> paid_flag d' i = paid_flag d i"
  by (simp add: paid_flag_def get_reservation_def)

lemma paid_flag_append:
  "paid_flag d i = Some True \<Longrightarrow> reservations d' = reservations d @ new
     \<Longrightarrow> paid_flag d' i = Some True"
  by (auto simp: paid_flag_def get_reservation_def find_append_Some)

lemma paid_flag_map:
  assumes "paid_flag d i = Some True"
    and "reservations d' = map (\<lambda>r. if Res_id r = j then r\<lparr>Res_paid := True\<rparr> else r) (reservations d)"
  shows "paid_flag d' i = Some True"
proof -
  from assms(1) obtain z where z: "find (\<lambda>r. Res_id r = i) (reservations d) = Some z" "Res_paid z"
    by (auto simp: paid_flag_def get_reservation_def)
  then show ?thesis
    by (simp add: paid_flag_def get_reservation_def assms(2) find_map_paid)
qed

lemma pay_page_valid:
  assumes "get_reservation d rid = Some resv" and "valid_payment e f"
  shows "snd (pay_page e POST f rid d) =
         d\<lparr>reservations := map (\<lambda>r. if Res_id r = rid then r\<lparr>Res_paid := True\<rparr> else r)
                               (reservations d),
           payments := payments d @
             [\<lparr>Pay_id = next_id (map Pay_id (payments d)),
               Pay_reservation_id = rid,
               Pay_amount = the (float_of_str e (the (f ''amount''))),
               Pay_method = the (f ''method''),
               Pay_status = ''paid''\<rparr>]\<rparr>"
proof -
  from assms(1) have rid: "Res_id resv = rid" by (rule get_reservation_id)
  from assms(2) obtain m s a where "f ''method'' = Some m" "f ''amount'' = Some s"
    "float_of_str e s = Some a"
    by (auto simp: valid_payment_def split: option.split_asm)
  with assms(1) rid show ?thesis by (simp add: pay_page_def Let_def)
qed

lemma pay_page_reservations:
  "reservations (snd (pay_page e meth f rid d)) = reservations d
   \<or> reservations (snd (pay_page e meth f rid d)) =
       map (\<lambda>r. if Res_id r = rid then r\<lparr>Res_paid := True\<rparr> else r) (reservations d)"
proof (cases "get_reservation d rid")
  case None
  then show ?thesis by (simp add: pay_page_def)
next
  case (Some resv)
  then have "Res_id resv = rid" by (rule get_reservation_id)
  with Some show ?thesis
    by (simp add: pay_page_def Let_def split: option.split)
qed

lemma book_post_reservations:
  "\<exists>new. reservations (snd (book_post e u f room d)) = reservations d @ new"
  by (simp add: book_post_def Let_def calculate_price_breakdown_eq
      split: option.split sum.split)

lemma book_reservations:
  "\<exists>new. reservations (snd (book e user meth f room_id d)) = reservations d @ new"
  by (simp add: book_def calculate_dynamic_price_eq book_post_reservations
      split: option.split)

lemma delete_room_reservations:
  "reservations (snd (delete_room user room_id d)) = reservations d"
  by (simp add: delete_room_def split: option.split)

lemma edit_room_reservations:
  "reservations (snd (edit_room e user meth f room_id d)) = reservations d"
  by (simp add: edit_room_def split: option.split)

lemma admin_dashboard_reservations:
  "reservations (snd (admin_dashboard e user meth f d)) = reservations d"
  by (simp add: admin_dashboard_def Let_def split: option.split)

lemma handle_keeps_paid:
  assumes "paid_flag d i = Some True"
  shows "paid_flag (snd (handle e req d)) i = Some True"
proof (cases req)
  case (Search user meth f)
  with assms show ?thesis by simp
next
  case (Book user meth f room_id)
  obtain new where "reservations (snd (book e user meth f room_id d)) = reservations d @ new"
    using book_reservations by blast
  with assms have "paid_flag (snd (book e user meth f room_id d)) i = Some True"
    by (rule paid_flag_append)
  with Book show ?thesis by simp
next
  case (Pay meth f rid)
  from pay_page_reservations [of e meth f rid d]
  have "paid_flag (snd (pay_page e meth f rid d)) i = Some True"
  proof
    assume "reservations (snd (pay_page e meth f rid d)) = reservations d"
    then have "paid_flag (snd (pay_page e meth f rid d)) i = paid_flag d i"
      by (rule paid_flag_cong)
    with assms show ?thesis by simp
  next
    assume "reservations (snd (pay_page e meth f rid d)) =
       map (\<lambda>r. if Res_id r = rid then r\<lparr>Res_paid := True\<rparr> else r) (reservations d)"
    with assms show ?thesis by (rule paid_flag_map)
  qed
  with Pay show ?thesis by simp
next
  case (Delete_room user room_id)
  have "paid_flag (snd (delete_room user room_id d)) i = paid_flag d i"
    by (rule paid_flag_cong) (rule delete_room_reservations)
  with assms Delete_room show ?thesis by simp
next
  case (Edit_room user meth f room_id)
  have "paid_flag (snd (edit_room e user meth f room_id d)) i = paid_flag d i"
    by (rule paid_flag_cong) (rule edit_room_reservations)
  with assms Edit_room show ?thesis by simp
next
  case (Admin_dashboard user meth f)
  have "paid_flag (snd (admin_dashboard e user meth f d)) i = paid_flag d i"
    by (rule paid_flag_cong) (rule admin_dashboard_reservations)
  with assms Admin_dashboard show ?thesis by simp
qed

lemma run_keeps_paid:
  "paid_flag d i = Some True \<Longrightarrow> paid_flag (run e reqs d) i = Some True"
proof (induction reqs arbitrary: d)
  case Nil
  then show ?case by (simp add: run_def)
next
  case (Cons req reqs)
  from Cons.prems have "paid_flag (snd (handle e req d)) i = Some True"
    by (rule handle_keeps_paid)
  then have "paid_flag (run e reqs (snd (handle e req d))) i = Some True"
    by (rule Cons.IH)
  then show ?case by (simp add: run_def)
qed

lemma pay_step:
  assumes "get_reservation d rid \<noteq> None" and "valid_payment e f"
  shows "length (payments_of (snd (pay_page e POST f rid d)) rid) = Suc (length (payments_of d rid))"
    and "paid_flag (snd (pay_page e POST f rid d)) rid = Some True"
    and "get_reservation (snd (pay_page e POST f rid d)) rid \<noteq> None"
proof -
  from assms(1) obtain resv where resv: "get_reservation d rid = Some resv" by blast
  note d' = pay_page_valid [OF resv assms(2)]
  show "length (payments_of (snd (pay_page e POST f rid d)) rid) = Suc (length (payments_of d rid))"
    by (simp add: d' payments_of_def)
  from resv have found: "find (\<lambda>r. Res_id r = rid) (reservations d) = Some resv"
    by (simp add: get_reservation_def)
  from resv have "Res_id resv = rid" by (rule get_reservation_id)
  then show "paid_flag (snd (pay_page e POST f rid d)) rid = Some True"
    by (simp add: d' paid_flag_def get_reservation_def find_map_paid found)
  show "get_reservation (snd (pay_page e POST f rid d)) rid \<noteq> None"
    by (simp add: d' get_reservation_def find_map_paid found)
qed

lemma pay_all_Cons:
  "pay_all e (f # fs) rid d = pay_all e fs rid (snd (pay_page e POST f rid d))"
  by (simp add: pay_all_def)

lemma pay_all_keeps_paid:
  "paid_flag d i = Some True \<Longrightarrow> paid_flag (pay_all e fs rid d) i = Some True"
proof (induction fs arbitrary: d)
  case Nil
  then show ?case by (simp add: pay_all_def)
next
  case (Cons f fs)
  from handle_keeps_paid [OF Cons.prems, of e "Pay POST f rid"]
  have "paid_flag (snd (pay_page e POST f rid d)) i = Some True" by simp
  then show ?case unfolding pay_all_Cons by (rule Cons.IH)
qed

lemma pay_all_count:
  assumes "get_reservation d rid \<noteq> None" and "\<forall>f \<in> set fs. valid_payment e f"
  shows "length (payments_of (pay_all e fs rid d) rid) = length (payments_of d rid) + length fs"
  using assms
proof (induction fs arbitrary: d)
  case Nil
  then show ?case by (simp add: pay_all_def)
next
  case (Cons f fs)
  from Cons.prems have v: "valid_payment e f" and vs: "\<forall>f \<in> set fs. valid_payment e f"
    by simp_all
  from pay_step [OF Cons.prems(1) v] Cons.IH [OF _ vs, of "snd (pay_page e POST f rid d)"]
  show ?case unfolding pay_all_Cons by simp
qed

lemma pay_all_paid:
  assumes "get_reservation d rid \<noteq> None" and "\<forall>f \<in> set fs. valid_payment e f" and "fs \<noteq> []"
  shows "paid_flag (pay_all e fs rid d) rid = Some True"
proof -
  from assms(3) obtain f fs' where fs: "fs = f # fs'" by (cases fs) auto
  with assms(2) have "valid_payment e f" by simp
  from pay_step(2) [OF assms(1) this] show ?thesis
    unfolding fs pay_all_Cons by (rule pay_all_keeps_paid)
qed

text \<open>
  C5.  After \<open>N \<ge> 1\<close> accepted payments against a stored reservation there are \<open>N\<close> more
  payment records of that reservation than before (exactly \<open>N\<close> when there were none),
  the paid flag of the reservation is true after the first and after each later one,
  and no sequence of requests, from any database, turns a true paid flag into
  anything else.
\<close>

theorem C5_payments_recorded:
  assumes "get_reservation d rid \<noteq> None" and "\<forall>f \<in> set fs. valid_payment e f" and "fs \<noteq> []"
  shows "length (payments_of (pay_all e fs rid d) rid) = length (payments_of d rid) + length fs
     \<and> (\<forall>n. 1 \<le> n \<and> n \<le> length fs \<longrightarrow>
           paid_flag (pay_all e (take n fs) rid d) rid = Some True)
     \<and> (\<forall>d0 i reqs. paid_flag d0 i = Some True \<longrightarrow> paid_flag (run e reqs d0) i = Some True)"
proof -
  have "paid_flag (pay_all e (take n fs) rid d) rid = Some True" if "1 \<le> n" "n \<le> length fs" for n
  proof -
    from that assms(3) have "take n fs \<noteq> []" by auto
    moreover from assms(2) have "\<forall>f \<in> set (take n fs). valid_payment e f"
      by (meson in_set_takeD)
    ultimately show ?thesis using assms(1) by (intro pay_all_paid)
  qed
  with pay_all_count [OF assms(1,2)] run_keeps_paid show ?thesis by blast
qed

lemmas payment_eval = pay_all_def pay_page_def payments_of_def paid_flag_def valid_payment_def
  unpaid_db_def booked_db_def card_payment_def cash_payment_def

theorem C5_payments_recorded_witness:
  "paid_flag unpaid_db 1 = Some False
   \<and> payments_of unpaid_db 1 = []
   \<and> length (payments_of (pay_all example_env [card_payment, cash_payment] 1 unpaid_db) 1) = 2
   \<and> paid_flag (pay_all example_env [card_payment] 1 unpaid_db) 1 = Some True
   \<and> paid_flag (run example_env [Book (Some guest) POST booking_form 2]
        (pay_all example_env [card_payment, cash_payment] 1 unpaid_db)) 1 = Some True"
proof -
  have 1: "get_reservation unpaid_db 1 \<noteq> None"
    by (simp add: unpaid_db_def booked_db_def get_reservation_def)
  have 2: "\<forall>f \<in> set [card_payment, cash_payment]. valid_payment example_env f"
    by (simp add: valid_payment_def card_payment_def cash_payment_def example_env_def parse_eval)
  have 3: "[card_payment, cash_payment] \<noteq> []" by simp
  have 4: "paid_flag unpaid_db 1 = Some False" "payments_of unpaid_db 1 = []"
    by (simp_all add: paid_flag_def payments_of_def unpaid_db_def booked_db_def get_reservation_def)
  from C5_payments_recorded [OF 1 2 3]
  have a: "length (payments_of (pay_all example_env [card_payment, cash_payment] 1 unpaid_db) 1)
             = length (payments_of unpaid_db 1) + 2"
    and b: "\<forall>n. 1 \<le> n \<and> n \<le> length [card_payment, cash_payment] \<longrightarrow>
           paid_flag (pay_all example_env (take n [card_payment, cash_payment]) 1 unpaid_db) 1 = Some True"
    and c: "\<forall>d0 i reqs. paid_flag d0 i = Some True \<longrightarrow> paid_flag (run example_env reqs d0) i = Some True"
    by simp_all
  from b [rule_format, of 1] have b1: "paid_flag (pay_all example_env [card_payment] 1 unpaid_db) 1 = Some True"
    by simp
  from b [rule_format, of 2] have b2:
    "paid_flag (pay_all example_env [card_payment, cash_payment] 1 unpaid_db) 1 = Some True"
    by simp
  from c b2 have "paid_flag (run example_env [Book (Some guest) POST booking_form 2]
        (pay_all example_env [card_payment, cash_payment] 1 unpaid_db)) 1 = Some True"
    by blast
  with 4 a b1 show ?thesis by simp
qed

section \<open>Properties of search\<close>

lemma skipped_eq: "skipped e room_type max_price r p = spec_excluded ''Any'' e room_type max_price r p"
  by (auto simp: skipped_def spec_excluded_def split: option.splits)

lemma search_post_loop_eq:
  "search_post_loop e room_type max_price rs acc =
     Inr (acc @ List.map_filter
       (\<lambda>r. case calculate_dynamic_price (now_month e) (Room_base_price r) of
               Inl err \<Rightarrow> None
             | Inr price_today \<Rightarrow>
                 if spec_excluded ''Any'' e room_type max_price r price_today then None
                 else Some (r, price_today)) rs)"
  by (induction rs arbitrary: acc)
    (simp_all add: calculate_dynamic_price_eq skipped_eq)

lemma spec_excluded_no_filter: "\<not> spec_excluded sentinel e None None r p"
  by (simp add: spec_excluded_def truthy_def)

lemma search_get_loop_eq:
  "search_get_loop e rs acc =
     Inr (acc @ List.map_filter
       (\<lambda>r. case calculate_dynamic_price (now_month e) (Room_base_price r) of
               Inl err \<Rightarrow> None
             | Inr price_today \<Rightarrow>
                 if spec_excluded ''Any'' e None None r price_today then None
                 else Some (r, price_today)) rs)"
  by (induction rs arbitrary: acc)
    (simp_all add: calculate_dynamic_price_eq spec_excluded_no_filter)

lemma spec_search_subseq: "subseq (map fst (spec_search sentinel e room_type max_price rs)) rs"
  by (induction rs)
    (auto simp: spec_search_def calculate_dynamic_price_eq)

lemma spec_search_sound:
  "(r, p) \<in> set (spec_search sentinel e room_type max_price rs) \<longleftrightarrow>
     r \<in> set rs \<and> Room_is_available r
     \<and> calculate_dynamic_price (now_month e) (Room_base_price r) = Inr p
     \<and> \<not> spec_excluded sentinel e room_type max_price r p"
  by (induction rs)
    (auto simp: spec_search_def calculate_dynamic_price_eq)

text \<open>
  C8, as stated, fails: with the type filter \<open>any\<close> the specification's search keeps
  both available rooms of the example, and the program, whose sentinel is \<open>Any\<close>,
  keeps none, since no room has the type \<open>any\<close>.
\<close>

theorem C8_counterexample:
  "search example_env None POST [''room_type'' \<mapsto> ''any''] example_db = Render_search []
   \<and> spec_search ''any'' example_env (Some ''any'') None (rooms example_db)
       = [(deluxe_room, Fin 140), (single_room, Fin 70)]"
  by (simp add: search_def search_post_loop_eq spec_search_def spec_excluded_def truthy_def
      example_eval price_eval)

text \<open>
  C8, amended.  For a caller who is not staff, a POST search returns the available
  rooms in store order, each with \<open>calculate_dynamic_price\<close> of its base price, without
  the rooms whose type differs from a type filter that is not empty and not the string
  \<open>Any\<close>, and without the rooms whose price is greater than a non-empty maximum price
  that parses as a number; a maximum price that does not parse filters nothing and
  raises nothing.  A GET search returns all available rooms.
\<close>

theorem C8_search:
  assumes "\<not> is_staff user"
  shows "search e user POST f d =
           Render_search (spec_search ''Any'' e (f ''room_type'') (f ''max_price'') (rooms d))
     \<and> search e user GET f d = Render_search (spec_search ''Any'' e None None (rooms d))
     \<and> subseq (map fst (spec_search ''Any'' e (f ''room_type'') (f ''max_price'') (rooms d))) (rooms d)
     \<and> (\<forall>r p. (r, p) \<in> set (spec_search ''Any'' e (f ''room_type'') (f ''max_price'') (rooms d)) \<longleftrightarrow>
           r \<in> set (rooms d) \<and> Room_is_available r
           \<and> calculate_dynamic_price (now_month e) (Room_base_price r) = Inr p
           \<and> \<not> spec_excluded ''Any'' e (f ''room_type'') (f ''max_price'') r p)
     \<and> (\<forall>s. f ''max_price'' = Some s \<and> float_of_str e s = None \<longrightarrow>
           search e user POST f d = search e user POST (f(''max_price'' := None)) d)"
proof -
  have post: "search e user POST g d =
           Render_search (spec_search ''Any'' e (g ''room_type'') (g ''max_price'') (rooms d))" for g
    using assms by (simp add: search_def search_post_loop_eq spec_search_def)
  have get: "search e user GET f d = Render_search (spec_search ''Any'' e None None (rooms d))"
    using assms by (simp add: search_def search_get_loop_eq spec_search_def)
  have ignore: "search e user POST f d = search e user POST (f(''max_price'' := None)) d"
    if "f ''max_price'' = Some s" "float_of_str e s = None" for s
    unfolding post using that
    by (simp add: spec_search_def spec_excluded_def truthy_def calculate_dynamic_price_eq)
  from post [of f] get ignore spec_search_subseq spec_search_sound show ?thesis
    by blast
qed

theorem C8_search_witness:
  "\<not> is_staff (Some guest)
   \<and> search example_env (Some guest) POST [''room_type'' \<mapsto> ''Any'', ''max_price'' \<mapsto> ''100''] example_db
       = Render_search [(single_room, Fin 70)]
   \<and> search example_env (Some guest) POST [''room_type'' \<mapsto> ''Deluxe'', ''max_price'' \<mapsto> ''abc''] example_db
       = Render_search [(deluxe_room, Fin 140)]
   \<and> search example_env (Some guest) GET Map.empty example_db
       = Render_search [(deluxe_room, Fin 140), (single_room, Fin 70)]"
proof -
  have g: "\<not> is_staff (Some guest)" by (simp add: is_staff_def guest_def)
  note eval = spec_search_def spec_excluded_def truthy_def fgt_def
    example_eval parse_eval price_eval
  from C8_search [OF g, of example_env "[''room_type'' \<mapsto> ''Any'', ''max_price'' \<mapsto> ''100'']" example_db]
  have 1: "search example_env (Some guest) POST [''room_type'' \<mapsto> ''Any'', ''max_price'' \<mapsto> ''100''] example_db
       = Render_search [(single_room, Fin 70)]"
    by (simp add: eval)
  from C8_search [OF g, of example_env "[''room_type'' \<mapsto> ''Deluxe'', ''max_price'' \<mapsto> ''abc'']" example_db]
  have 2: "search example_env (Some guest) POST [''room_type'' \<mapsto> ''Deluxe'', ''max_price'' \<mapsto> ''abc''] example_db
       = Render_search [(deluxe_room, Fin 140)]"
    by (simp add: eval)
  from C8_search [OF g, of example_env Map.empty example_db]
  have 3: "search example_env (Some guest) GET Map.empty example_db
       = Render_search [(deluxe_room, Fin 140), (single_room, Fin 70)]"
    by (simp add: eval)
  from g 1 2 3 show ?thesis by simp
qed

end
